theory Spec2Isabelle
  imports Main "HOL-Library.Word"
begin

unbundle bit_operations_syntax

section \<open>Data model of the poll manager\<close>

text \<open>
  The embedding follows \<^verbatim>\<open>PollManager\<close> of tdlib (the source file of the poll manager).
  A \<^verbatim>\<open>PollId\<close> wraps an \<^verbatim>\<open>int64\<close> and is an \<open>int\<close> here (no arithmetic is done on it);
  \<^verbatim>\<open>int32\<close> counters are \<open>32 word\<close>, \<^verbatim>\<open>uint64\<close> generations and log event ids are \<open>64 word\<close>.
  A \<^verbatim>\<open>CHECK\<close> that fails and a \<^verbatim>\<open>LOG(FATAL)\<close> abort the process: both are error values.
\<close>

datatype failure = CheckFailed string | Fatal string

datatype FullMessageId = FullMessageId (get_dialog_id: int) (get_message_id: int)

text \<open>\<^verbatim>\<open>Result<Unit>\<close>: a value or a \<^verbatim>\<open>Status::Error(code, message)\<close>.\<close>

datatype Result = Ok | Error int string

fun is_error :: "Result \<Rightarrow> bool" where
  "is_error Ok = False"
| "is_error (Error c m) = True"

text \<open>
  A \<^verbatim>\<open>Promise<Unit>\<close> is either the completion handle of a caller (identified by a number)
  or the empty promise \<^verbatim>\<open>Auto()\<close> that crash recovery passes.
\<close>

datatype Promise = Promise nat | Auto

record PollOption =
  "text" :: string
  data :: string
  voter_count :: "32 word"
  is_chosen :: bool

record Poll =
  question :: string
  options :: "PollOption list"
  total_voter_count :: "32 word"
  is_closed :: bool

text \<open>
  \<^verbatim>\<open>PendingAnswer\<close>. Isabelle has no names that end in an underscore, so the members are
  \<open>pa_options\<close> for \<^verbatim>\<open>options_\<close> and so on (and \<open>polls\<close> for \<^verbatim>\<open>polls_\<close> in the manager). The
  \<^verbatim>\<open>NetQueryRef query_ref_\<close> is \<open>None\<close> when empty and otherwise the position of the query in
  the trace of issued queries.
\<close>

record PendingAnswer =
  pa_options :: "string list"
  pa_promises :: "Promise list"
  pa_generation :: "64 word"
  pa_logevent_id :: "64 word"
  pa_query_ref :: "nat option"

definition PendingAnswer_default :: PendingAnswer where
  "PendingAnswer_default =
     \<lparr>pa_options = [], pa_promises = [], pa_generation = 0, pa_logevent_id = 0, pa_query_ref = None\<rparr>"

text \<open>\<^verbatim>\<open>PollManager::SetPollAnswerLogEvent\<close> (its \<^verbatim>\<open>options_\<close> is \<open>le_options\<close> here).\<close>

record SetPollAnswerLogEvent =
  le_poll_id :: int
  le_full_message_id :: FullMessageId
  le_options :: "string list"

text \<open>
  Modelled from the spec: the write-ahead log (\<^verbatim>\<open>binlog_add\<close>, \<^verbatim>\<open>binlog_rewrite\<close>,
  \<^verbatim>\<open>binlog_erase\<close> of \<^verbatim>\<open>td/db/binlog/BinlogHelper.h\<close>) is not part of the source. Following the
  write-ahead log contract of the spec (append returns a new entry id, rewrite keeps the id of
  the entry, erase removes it), the log is the journal of the operations applied to it.
\<close>

datatype binlog_op =
    BinlogAdd "64 word" SetPollAnswerLogEvent
  | BinlogRewrite "64 word" SetPollAnswerLogEvent
  | BinlogErase "64 word"

text \<open>
  One call of \<^verbatim>\<open>SetPollAnswerQuery::send\<close>: the poll id and generation captured by the query
  promise, the message, the sent options, and the error the query fails with at once when the
  chat cannot be accessed (\<open>None\<close> when the query went to the network).
\<close>

record SentQuery =
  query_poll_id :: int
  query_generation :: "64 word"
  query_full_message_id :: FullMessageId
  query_options :: "string list"
  query_failed :: "Result option"

text \<open>
  What the source reads from its surroundings and does not define: the parameters and close flag
  of \<^verbatim>\<open>G()\<close>, the access check of the messages manager, \<^verbatim>\<open>PollId::is_valid\<close>, the flag masks of
  the \<^verbatim>\<open>telegram_api\<close> objects, and the codecs of the stored records. They are parameters of the
  model.
\<close>

record Global =
  use_message_db :: bool
  close_flag :: bool
  have_input_peer :: "int \<Rightarrow> bool"
  PollId_is_valid :: "int \<Rightarrow> bool"
  CLOSED_MASK :: "32 word"
  MIN_MASK :: "32 word"
  TOTAL_VOTERS_MASK :: "32 word"
  CHOSEN_MASK :: "32 word"
  log_event_store_Poll :: "Poll \<Rightarrow> string"
  log_event_parse_Poll :: "string \<Rightarrow> Poll option"
  log_event_parse_SetPollAnswer :: "string \<Rightarrow> SetPollAnswerLogEvent option"

text \<open>
  The state of the manager, with its collaborators made explicit: the binlog journal and its
  id counter, the key-value store \<open>sqlite_pmc\<close> as the journal of its \<^verbatim>\<open>set\<close> calls (newest
  first), and the traces of the calls made to the outside: content updates sent to the messages
  manager, values and errors set on promises, queries sent and queries cancelled.
\<close>

record PollManager =
  polls :: "int \<rightharpoonup> Poll"
  poll_messages :: "int \<rightharpoonup> FullMessageId list"
  pending_answers :: "int \<rightharpoonup> PendingAnswer"
  current_generation :: "64 word"
  current_local_poll_id :: int
  loaded_from_database_polls :: "int set"
  binlog :: "binlog_op list"
  binlog_next_id :: "64 word"
  sqlite_pmc :: "(string \<times> string) list"
  content_updates :: "FullMessageId list"
  promise_results :: "(Promise \<times> Result) list"
  sent_queries :: "SentQuery list"
  cancelled_queries :: "nat list"

section \<open>Collaborators\<close>

definition set_value :: "PollManager \<Rightarrow> Promise \<Rightarrow> PollManager" where
  "set_value s p = s\<lparr>promise_results := promise_results s @ [(p, Ok)]\<rparr>"

definition set_error :: "PollManager \<Rightarrow> Promise \<Rightarrow> Result \<Rightarrow> PollManager" where
  "set_error s p e = s\<lparr>promise_results := promise_results s @ [(p, e)]\<rparr>"

text \<open>Modelled from the spec: \<^verbatim>\<open>binlog_add\<close> is not part of the source; it appends an entry and returns its id.\<close>

definition binlog_add :: "PollManager \<Rightarrow> SetPollAnswerLogEvent \<Rightarrow> PollManager \<times> 64 word" where
  "binlog_add s ev =
     (s\<lparr>binlog := binlog s @ [BinlogAdd (binlog_next_id s) ev],
        binlog_next_id := binlog_next_id s + 1\<rparr>, binlog_next_id s)"

text \<open>Modelled from the spec: \<^verbatim>\<open>binlog_rewrite\<close> is not part of the source; it replaces the payload of an entry and keeps its id.\<close>

definition binlog_rewrite :: "PollManager \<Rightarrow> 64 word \<Rightarrow> SetPollAnswerLogEvent \<Rightarrow> PollManager" where
  "binlog_rewrite s logevent_id ev = s\<lparr>binlog := binlog s @ [BinlogRewrite logevent_id ev]\<rparr>"

text \<open>Modelled from the spec: \<^verbatim>\<open>binlog_erase\<close> is not part of the source; it removes an entry.\<close>

definition binlog_erase :: "PollManager \<Rightarrow> 64 word \<Rightarrow> PollManager" where
  "binlog_erase s logevent_id = s\<lparr>binlog := binlog s @ [BinlogErase logevent_id]\<rparr>"

definition cancel_query :: "PollManager \<Rightarrow> nat option \<Rightarrow> PollManager" where
  "cancel_query s query_ref =
     (case query_ref of None \<Rightarrow> s
      | Some q \<Rightarrow> s\<lparr>cancelled_queries := cancelled_queries s @ [q]\<rparr>)"

section \<open>Registry\<close>

definition is_local_poll_id :: "int \<Rightarrow> bool" where
  "is_local_poll_id poll_id \<longleftrightarrow> poll_id < 0 \<and> poll_id > - (2 ^ 31)"

definition get_poll :: "PollManager \<Rightarrow> int \<Rightarrow> Poll option" where
  "get_poll s poll_id = polls s poll_id"

definition have_poll :: "PollManager \<Rightarrow> int \<Rightarrow> bool" where
  "have_poll s poll_id \<longleftrightarrow> get_poll s poll_id \<noteq> None"

text \<open>
  \<^verbatim>\<open>notify_on_poll_update\<close>: one content update per message registered for the poll. The
  \<^verbatim>\<open>unordered_set\<close> of messages is a duplicate-free list, whose order stands for the order of
  iteration.
\<close>

definition notify_on_poll_update :: "PollManager \<Rightarrow> int \<Rightarrow> PollManager" where
  "notify_on_poll_update s poll_id =
     (case poll_messages s poll_id of
        None \<Rightarrow> s
      | Some ms \<Rightarrow> s\<lparr>content_updates := content_updates s @ ms\<rparr>)"

section \<open>Answer coordinator\<close>

text \<open>
  \<^verbatim>\<open>SetPollAnswerQuery::send\<close>, called on a fresh query actor. Without read access to the chat
  the query fails at once with error 400 and the query reference is left as it is; otherwise the
  query goes to the network and the reference is set. Either way the call is recorded; the
  result reaches \<^verbatim>\<open>on_set_poll_answer\<close> later, as a message of its own.
\<close>

definition SetPollAnswerQuery_send ::
  "Global \<Rightarrow> PollManager \<Rightarrow> int \<Rightarrow> FullMessageId \<Rightarrow> string list \<Rightarrow> 64 word \<Rightarrow> nat option
     \<Rightarrow> PollManager \<times> nat option" where
  "SetPollAnswerQuery_send G s poll_id full_message_id sent_options generation query_ref =
     (if \<not> have_input_peer G (get_dialog_id full_message_id) then
        (s\<lparr>sent_queries := sent_queries s @
              [\<lparr>query_poll_id = poll_id, query_generation = generation,
                query_full_message_id = full_message_id, query_options = sent_options,
                query_failed = Some (Error 400 ''Can't access the chat'')\<rparr>]\<rparr>,
         query_ref)
      else
        (s\<lparr>sent_queries := sent_queries s @
              [\<lparr>query_poll_id = poll_id, query_generation = generation,
                query_full_message_id = full_message_id, query_options = sent_options,
                query_failed = None\<rparr>]\<rparr>,
         Some (length (sent_queries s))))"

text \<open>Lines 300 to 317 of \<^verbatim>\<open>do_set_poll_answer\<close>: the log entry is added or rewritten.\<close>

definition write_logevent ::
  "Global \<Rightarrow> PollManager \<Rightarrow> PendingAnswer \<Rightarrow> int \<Rightarrow> FullMessageId \<Rightarrow> string list \<Rightarrow> 64 word
     \<Rightarrow> failure + PollManager \<times> 64 word" where
  "write_logevent G s pending_answer poll_id full_message_id opts logevent_id =
     (if logevent_id = 0 \<and> use_message_db G then
        (let logevent = \<lparr>le_poll_id = poll_id,
                         le_full_message_id = full_message_id,
                         le_options = opts\<rparr>
         in if pa_generation pending_answer = 0 then
              (if pa_logevent_id pending_answer \<noteq> 0
               then Inl (CheckFailed ''pending_answer.logevent_id_ == 0'')
               else Inr (binlog_add s logevent))
            else
              (if pa_logevent_id pending_answer = 0
               then Inl (CheckFailed ''pending_answer.logevent_id_ != 0'')
               else Inr (binlog_rewrite s (pa_logevent_id pending_answer) logevent,
                         pa_logevent_id pending_answer)))
      else Inr (s, logevent_id))"

text \<open>Lines 319 to 329: the old query is cancelled and the old promises are set to a value.\<close>

definition supersede ::
  "PollManager \<Rightarrow> PendingAnswer \<Rightarrow> failure + PollManager \<times> PendingAnswer" where
  "supersede s pending_answer =
     (if pa_promises pending_answer \<noteq> [] then
        (if pa_query_ref pending_answer = None
         then Inl (CheckFailed ''!pending_answer.query_ref_.empty()'')
         else Inr (fold (\<lambda>old_promise s'. set_value s' old_promise) (pa_promises pending_answer)
                     (cancel_query s (pa_query_ref pending_answer)),
                   pending_answer\<lparr>pa_query_ref := None, pa_promises := []\<rparr>))
      else Inr (s, pending_answer))"

definition do_set_poll_answer ::
  "Global \<Rightarrow> PollManager \<Rightarrow> int \<Rightarrow> FullMessageId \<Rightarrow> string list \<Rightarrow> 64 word \<Rightarrow> Promise
     \<Rightarrow> failure + PollManager" where
  "do_set_poll_answer G s poll_id full_message_id opts logevent_id promise =
     (let pending_answer =
            (case pending_answers s poll_id of None \<Rightarrow> PendingAnswer_default | Some pa \<Rightarrow> pa)
      in if pa_promises pending_answer \<noteq> [] \<and> pa_options pending_answer = opts then
           Inr (s\<lparr>pending_answers := (pending_answers s)
                    (poll_id \<mapsto> pending_answer\<lparr>pa_promises := pa_promises pending_answer @ [promise]\<rparr>)\<rparr>)
         else if \<not> (pa_logevent_id pending_answer = 0 \<or> logevent_id = 0) then
           Inl (CheckFailed ''pending_answer.logevent_id_ == 0 || logevent_id == 0'')
         else
           (case write_logevent G s pending_answer poll_id full_message_id opts logevent_id of
              Inl e \<Rightarrow> Inl e
            | Inr (s1, logevent_id1) \<Rightarrow>
               (case supersede s1 pending_answer of
                  Inl e \<Rightarrow> Inl e
                | Inr (s2, pending_answer2) \<Rightarrow>
                   (let generation = current_generation s2 + 1;
                        s3 = s2\<lparr>current_generation := generation\<rparr>;
                        pending_answer3 = pending_answer2
                          \<lparr>pa_options := opts,
                           pa_promises := pa_promises pending_answer2 @ [promise],
                           pa_generation := generation,
                           pa_logevent_id := logevent_id1\<rparr>;
                        s4 = notify_on_poll_update s3 poll_id;
                        (s5, query_ref) = SetPollAnswerQuery_send G s4 poll_id full_message_id opts
                                            generation (pa_query_ref pending_answer3)
                    in Inr (s5\<lparr>pending_answers := (pending_answers s5)
                                 (poll_id \<mapsto> pending_answer3\<lparr>pa_query_ref := query_ref\<rparr>)\<rparr>)))))"

definition on_set_poll_answer ::
  "Global \<Rightarrow> PollManager \<Rightarrow> int \<Rightarrow> 64 word \<Rightarrow> Result \<Rightarrow> failure + PollManager" where
  "on_set_poll_answer G s poll_id generation result =
     (if close_flag G \<and> is_error result then Inr s
      else
        (case pending_answers s poll_id of
           None \<Rightarrow> Inr s
         | Some pending_answer \<Rightarrow>
             (if pa_promises pending_answer = [] then
                Inl (CheckFailed ''!pending_answer.promises_.empty()'')
              else if pa_generation pending_answer \<noteq> generation then Inr s
              else
                (let s1 = (if pa_logevent_id pending_answer \<noteq> 0
                           then binlog_erase s (pa_logevent_id pending_answer) else s);
                     s2 = fold (\<lambda>promise s'. case result of Ok \<Rightarrow> set_value s' promise
                                               | Error c m \<Rightarrow> set_error s' promise (Error c m))
                            (pa_promises pending_answer) s1
                 in Inr (s2\<lparr>pending_answers := (pending_answers s2)(poll_id := None)\<rparr>)))))"

text \<open>
  \<^verbatim>\<open>set_poll_answer\<close>. The loop over \<^verbatim>\<open>option_ids\<close> is \<open>get_chosen_options\<close>: an \<^verbatim>\<open>int32\<close> option
  id is cast to \<^verbatim>\<open>size_t\<close>, so a negative id becomes an index of at least \<open>2 ^ 63\<close>.
\<close>

fun get_chosen_options :: "Poll \<Rightarrow> int list \<Rightarrow> string list \<Rightarrow> string list option" where
  "get_chosen_options poll [] acc = Some acc"
| "get_chosen_options poll (option_id # option_ids) acc =
     (let index = nat (option_id mod 2 ^ 64)
      in if index \<ge> length (options poll) then None
         else get_chosen_options poll option_ids (acc @ [data (options poll ! index)]))"

definition set_poll_answer ::
  "Global \<Rightarrow> PollManager \<Rightarrow> int \<Rightarrow> FullMessageId \<Rightarrow> int list \<Rightarrow> Promise \<Rightarrow> failure + PollManager" where
  "set_poll_answer G s poll_id full_message_id option_ids promise =
     (if length option_ids > 1 then
        Inr (set_error s promise (Error 400 ''Can't choose more than 1 option''))
      else if is_local_poll_id poll_id then
        Inr (set_error s promise (Error 5 ''Poll can't be answered''))
      else
        (case get_poll s poll_id of
           None \<Rightarrow> Inl (CheckFailed ''poll != nullptr'')
         | Some poll \<Rightarrow>
             (if is_closed poll then
                Inr (set_error s promise (Error 400 ''Can't answer closed poll''))
              else
                (case get_chosen_options poll option_ids [] of
                   None \<Rightarrow> Inr (set_error s promise (Error 400 ''Invalid option id specified''))
                 | Some opts \<Rightarrow> do_set_poll_answer G s poll_id full_message_id opts 0 promise))))"

section \<open>Durable poll store\<close>

text \<open>Decimal printing of the poll id and of option positions (\<^verbatim>\<open>to_string\<close>, \<^verbatim>\<open>PSTRING\<close>).\<close>

function to_string_nat :: "nat \<Rightarrow> string" where
  "to_string_nat n =
     (if n < 10 then [''0123456789'' ! n]
      else to_string_nat (n div 10) @ [''0123456789'' ! (n mod 10)])"
  by pat_completeness auto
termination
  by (relation "measure (\<lambda>n. n)") auto

declare to_string_nat.simps [simp del]

definition to_string :: "int \<Rightarrow> string" where
  "to_string i = (if i < 0 then CHR ''-'' # to_string_nat (nat (- i)) else to_string_nat (nat i))"

definition get_poll_database_key :: "int \<Rightarrow> string" where
  "get_poll_database_key poll_id = ''poll'' @ to_string poll_id"

text \<open>
  Modelled from the spec: the key-value store (\<^verbatim>\<open>get_sqlite_pmc\<close>, \<^verbatim>\<open>get_sqlite_sync_pmc\<close>) is not
  part of the source. Following the durable store contract of the spec, \<open>sqlite_set\<close> records the
  write and \<open>sqlite_get\<close> returns the newest value written under the key, the empty string when
  there is none.
\<close>

definition sqlite_set :: "PollManager \<Rightarrow> string \<Rightarrow> string \<Rightarrow> PollManager" where
  "sqlite_set s key v = s\<lparr>sqlite_pmc := (key, v) # sqlite_pmc s\<rparr>"

definition sqlite_get :: "PollManager \<Rightarrow> string \<Rightarrow> string" where
  "sqlite_get s key = (case map_of (sqlite_pmc s) key of None \<Rightarrow> [] | Some v \<Rightarrow> v)"

text \<open>\<^verbatim>\<open>save_poll\<close>; both callers pass a poll that is not null.\<close>

definition save_poll :: "Global \<Rightarrow> PollManager \<Rightarrow> Poll \<Rightarrow> int \<Rightarrow> failure + PollManager" where
  "save_poll G s poll poll_id =
     (if is_local_poll_id poll_id then Inl (CheckFailed ''!is_local_poll_id(poll_id)'')
      else if \<not> use_message_db G then Inr s
      else Inr (sqlite_set s (get_poll_database_key poll_id) (log_event_store_Poll G poll)))"

definition on_load_poll_from_database ::
  "Global \<Rightarrow> PollManager \<Rightarrow> int \<Rightarrow> string \<Rightarrow> failure + PollManager" where
  "on_load_poll_from_database G s poll_id v =
     (let s1 = s\<lparr>loaded_from_database_polls := insert poll_id (loaded_from_database_polls s)\<rparr>
      in if have_poll s1 poll_id then Inl (CheckFailed ''!have_poll(poll_id)'')
         else if v \<noteq> [] then
           (case log_event_parse_Poll G v of
              None \<Rightarrow> Inl (Fatal ''log_event_parse'')
            | Some result \<Rightarrow> Inr (s1\<lparr>polls := (polls s1)(poll_id \<mapsto> result)\<rparr>))
         else Inr s1)"

definition get_poll_force :: "Global \<Rightarrow> PollManager \<Rightarrow> int \<Rightarrow> failure + PollManager \<times> Poll option" where
  "get_poll_force G s poll_id =
     (case polls s poll_id of
        Some poll \<Rightarrow> Inr (s, Some poll)
      | None \<Rightarrow>
          (if \<not> use_message_db G then Inr (s, None)
           else if poll_id \<in> loaded_from_database_polls s then Inr (s, None)
           else
             (case on_load_poll_from_database G s poll_id
                     (sqlite_get s (get_poll_database_key poll_id)) of
                Inl e \<Rightarrow> Inl e
              | Inr s1 \<Rightarrow> Inr (s1, polls s1 poll_id))))"

section \<open>View projector\<close>

datatype td_api_pollOption =
  td_api_pollOption (td_text: string) (td_voter_count: "32 word")
    (td_is_chosen: bool)

datatype td_api_poll =
  td_api_poll (td_question: string) (td_options: "td_api_pollOption list")
    (td_total_voter_count: "32 word") (td_is_closed: bool)

definition get_poll_option_object :: "PollOption \<Rightarrow> td_api_pollOption" where
  "get_poll_option_object poll_option =
     td_api_pollOption (text poll_option) (voter_count poll_option) (is_chosen poll_option)"

text \<open>
  The loop of \<^verbatim>\<open>get_poll_object\<close> over the options of a poll with a pending answer: it builds
  the overlaid options and sets \<^verbatim>\<open>voter_count_diff\<close> to \<open>-1\<close> at every option that is chosen.
\<close>

fun overlay_options ::
  "string list \<Rightarrow> PollOption list \<Rightarrow> td_api_pollOption list \<Rightarrow> 32 word
     \<Rightarrow> td_api_pollOption list \<times> 32 word" where
  "overlay_options chosen_options [] poll_options voter_count_diff =
     (poll_options, voter_count_diff)"
| "overlay_options chosen_options (poll_option # rest) poll_options voter_count_diff =
     (let chosen = (data poll_option \<in> set chosen_options)
      in overlay_options chosen_options rest
           (poll_options @
              [td_api_pollOption (text poll_option)
                 (voter_count poll_option - of_bool (is_chosen poll_option) + of_bool chosen)
                 chosen])
           (if is_chosen poll_option then - 1 else voter_count_diff))"

definition get_poll_object :: "PollManager \<Rightarrow> int \<Rightarrow> failure + td_api_poll" where
  "get_poll_object s poll_id =
     (case get_poll s poll_id of
        None \<Rightarrow> Inl (CheckFailed ''poll != nullptr'')
      | Some poll \<Rightarrow>
          (case pending_answers s poll_id of
             None \<Rightarrow>
               Inr (td_api_poll (question poll) (map get_poll_option_object (options poll))
                      (total_voter_count poll + 0) (is_closed poll))
           | Some pending_answer \<Rightarrow>
               (let chosen_options = pa_options pending_answer;
                    (poll_options, voter_count_diff0) =
                       overlay_options chosen_options (options poll) [] 0;
                    voter_count_diff =
                       (if chosen_options \<noteq> [] then voter_count_diff0 + 1 else voter_count_diff0)
                in Inr (td_api_poll (question poll) poll_options
                          (total_voter_count poll + voter_count_diff) (is_closed poll)))))"

section \<open>Creation, message association, closing\<close>

text \<open>
  \<^verbatim>\<open>create_poll\<close>. The members of a new \<^verbatim>\<open>PollOption\<close> and \<^verbatim>\<open>Poll\<close> start at zero and false (the
  defaults of the declarations).
\<close>

fun create_options :: "nat \<Rightarrow> string list \<Rightarrow> PollOption list" where
  "create_options pos [] = []"
| "create_options pos (option_text # rest) =
     \<lparr>text = option_text, data = to_string (int pos), voter_count = 0, is_chosen = False\<rparr>
       # create_options (Suc pos) rest"

definition create_poll ::
  "PollManager \<Rightarrow> string \<Rightarrow> string list \<Rightarrow> failure + PollManager \<times> int" where
  "create_poll s q option_texts =
     (let poll = \<lparr>question = q, options = create_options 0 option_texts,
                  total_voter_count = 0, is_closed = False\<rparr>;
          poll_id = current_local_poll_id s - 1;
          s1 = s\<lparr>current_local_poll_id := poll_id\<rparr>
      in if \<not> is_local_poll_id poll_id then Inl (CheckFailed ''is_local_poll_id(poll_id)'')
         else if polls s1 poll_id \<noteq> None then Inl (CheckFailed ''is_inserted'')
         else Inr (s1\<lparr>polls := (polls s1)(poll_id \<mapsto> poll)\<rparr>, poll_id))"

definition register_poll :: "PollManager \<Rightarrow> int \<Rightarrow> FullMessageId \<Rightarrow> failure + PollManager" where
  "register_poll s poll_id full_message_id =
     (if \<not> have_poll s poll_id then Inl (CheckFailed ''have_poll(poll_id)'')
      else Inr (s\<lparr>poll_messages := (poll_messages s)
                    (poll_id \<mapsto> List.insert full_message_id
                       (case poll_messages s poll_id of None \<Rightarrow> [] | Some ms \<Rightarrow> ms))\<rparr>))"

definition unregister_poll :: "PollManager \<Rightarrow> int \<Rightarrow> FullMessageId \<Rightarrow> failure + PollManager" where
  "unregister_poll s poll_id full_message_id =
     (if \<not> have_poll s poll_id then Inl (CheckFailed ''have_poll(poll_id)'')
      else Inr (s\<lparr>poll_messages := (poll_messages s)
                    (poll_id \<mapsto> removeAll full_message_id
                       (case poll_messages s poll_id of None \<Rightarrow> [] | Some ms \<Rightarrow> ms))\<rparr>))"

definition close_poll :: "Global \<Rightarrow> PollManager \<Rightarrow> int \<Rightarrow> failure + PollManager" where
  "close_poll G s poll_id =
     (case polls s poll_id of
        None \<Rightarrow> Inl (CheckFailed ''poll != nullptr'')
      | Some poll \<Rightarrow>
          (if is_closed poll then Inr s
           else
             (let poll1 = poll\<lparr>is_closed := True\<rparr>;
                  s1 = notify_on_poll_update (s\<lparr>polls := (polls s)(poll_id \<mapsto> poll1)\<rparr>) poll_id
              in if \<not> is_local_poll_id poll_id then save_poll G s1 poll1 poll_id else Inr s1)))"

section \<open>Reconciliation engine\<close>

text \<open>
  The objects of \<^verbatim>\<open>telegram_api\<close> that \<^verbatim>\<open>on_get_poll\<close> reads: \<^verbatim>\<open>pollAnswer\<close>, \<^verbatim>\<open>poll\<close>
  (the \<^verbatim>\<open>poll_server\<close> of the source), \<^verbatim>\<open>pollAnswerVoters\<close> (a \<^verbatim>\<open>poll_result\<close>) and
  \<^verbatim>\<open>pollResults\<close> (the \<^verbatim>\<open>poll_results\<close>). A member \<^verbatim>\<open>flags_\<close> of \<^verbatim>\<open>poll_server\<close> is
  \<open>poll_server_flags\<close>, and so on.
\<close>

record pollAnswer =
  pollAnswer_text :: string
  pollAnswer_option :: string

record poll_server =
  poll_server_id :: int
  poll_server_flags :: "32 word"
  poll_server_question :: string
  poll_server_answers :: "pollAnswer list"

record pollAnswerVoters =
  poll_result_flags :: "32 word"
  poll_result_option :: string
  poll_result_voters :: "32 word"

record pollResults =
  poll_results_flags :: "32 word"
  poll_results_results :: "pollAnswerVoters list"
  poll_results_total_voters :: "32 word"

definition get_poll_options :: "pollAnswer list \<Rightarrow> PollOption list" where
  "get_poll_options poll_options =
     map (\<lambda>poll_option. \<lparr>text = pollAnswer_text poll_option, data = pollAnswer_option poll_option,
                          voter_count = 0, is_chosen = False\<rparr>) poll_options"

text \<open>
  The position-wise loop of lines 457 to 468, run when both lists have the same size; it
  returns the merged options and the flag \<^verbatim>\<open>is_changed\<close>.
\<close>

fun merge_options :: "PollOption list \<Rightarrow> pollAnswer list \<Rightarrow> bool \<Rightarrow> PollOption list \<times> bool" where
  "merge_options (poll_option # rest) (answer # answers) is_changed =
     (let (o1, c1) = (if text poll_option \<noteq> pollAnswer_text answer
                      then (poll_option\<lparr>text := pollAnswer_text answer\<rparr>, True)
                      else (poll_option, is_changed));
          (o2, c2) = (if data o1 \<noteq> pollAnswer_option answer
                      then (o1\<lparr>data := pollAnswer_option answer, voter_count := 0,
                               is_chosen := False\<rparr>, True)
                      else (o1, c1));
          (rest2, c3) = merge_options rest answers c2
      in (o2 # rest2, c3))"
| "merge_options poll_options answers is_changed = (poll_options, is_changed)"

text \<open>Lines 448 to 475: the merge of the poll payload.\<close>

definition merge_poll_server :: "Global \<Rightarrow> Poll \<Rightarrow> poll_server \<Rightarrow> bool \<Rightarrow> Poll \<times> bool" where
  "merge_poll_server G poll ps is_changed =
     (let (p1, c1) = (if question poll \<noteq> poll_server_question ps
                      then (poll\<lparr>question := poll_server_question ps\<rparr>, True)
                      else (poll, is_changed));
          (p2, c2) = (if length (options p1) \<noteq> length (poll_server_answers ps)
                      then (p1\<lparr>options := get_poll_options (poll_server_answers ps)\<rparr>, True)
                      else (let (os, c) = merge_options (options p1) (poll_server_answers ps) c1
                            in (p1\<lparr>options := os\<rparr>, c)));
          closed = (poll_server_flags ps AND CLOSED_MASK G \<noteq> 0)
      in if closed \<noteq> is_closed p2 then (p2\<lparr>is_closed := closed\<rparr>, True) else (p2, c2))"

text \<open>The inner loop of lines 486 to 501: one tally entry against every option.\<close>

fun apply_poll_result ::
  "bool \<Rightarrow> 32 word \<Rightarrow> pollAnswerVoters \<Rightarrow> PollOption list \<Rightarrow> bool \<Rightarrow> PollOption list \<times> bool" where
  "apply_poll_result is_min chosen_mask poll_result [] is_changed = ([], is_changed)"
| "apply_poll_result is_min chosen_mask poll_result (opt # rest) is_changed =
     (if data opt \<noteq> poll_result_option poll_result then
        (let (rest2, c) = apply_poll_result is_min chosen_mask poll_result rest is_changed
         in (opt # rest2, c))
      else
        (let chosen = (poll_result_flags poll_result AND chosen_mask \<noteq> 0);
             (o1, c1) = (if \<not> is_min \<and> chosen \<noteq> is_chosen opt
                         then (opt\<lparr>is_chosen := chosen\<rparr>, True)
                         else (opt, is_changed));
             (o2, c2) = (if poll_result_voters poll_result \<noteq> voter_count o1
                         then (o1\<lparr>voter_count := poll_result_voters poll_result\<rparr>, True)
                         else (o1, c1));
             (rest2, c3) = apply_poll_result is_min chosen_mask poll_result rest c2
         in (o2 # rest2, c3)))"

text \<open>The outer loop of lines 484 to 502 over the tally entries.\<close>

fun apply_poll_results ::
  "bool \<Rightarrow> 32 word \<Rightarrow> pollAnswerVoters list \<Rightarrow> PollOption list \<Rightarrow> bool \<Rightarrow> PollOption list \<times> bool" where
  "apply_poll_results is_min chosen_mask [] poll_options is_changed = (poll_options, is_changed)"
| "apply_poll_results is_min chosen_mask (poll_result # rest) poll_options is_changed =
     (let (os, c) = apply_poll_result is_min chosen_mask poll_result poll_options is_changed
      in apply_poll_results is_min chosen_mask rest os c)"

text \<open>Lines 478 to 502: the merge of the results.\<close>

definition merge_poll_results :: "Global \<Rightarrow> Poll \<Rightarrow> pollResults \<Rightarrow> bool \<Rightarrow> Poll \<times> bool" where
  "merge_poll_results G poll pr is_changed =
     (let is_min = (poll_results_flags pr AND MIN_MASK G \<noteq> 0);
          (p1, c1) = (if poll_results_flags pr AND TOTAL_VOTERS_MASK G \<noteq> 0
                         \<and> poll_results_total_voters pr \<noteq> total_voter_count poll
                      then (poll\<lparr>total_voter_count := poll_results_total_voters pr\<rparr>, True)
                      else (poll, is_changed));
          (os, c2) = apply_poll_results is_min (CHOSEN_MASK G) (poll_results_results pr)
                       (options p1) c1
      in (p1\<lparr>options := os\<rparr>, c2))"

definition Poll_default :: Poll where
  "Poll_default = \<lparr>question = [], options = [], total_voter_count = 0, is_closed = False\<rparr>"

text \<open>
  \<^verbatim>\<open>on_get_poll\<close>. The result \<open>None\<close> is the default \<^verbatim>\<open>PollId()\<close>. A poll that is created here is
  inserted under an id that \<^verbatim>\<open>get_poll_force\<close> has just not found, so \<^verbatim>\<open>CHECK(is_inserted)\<close> holds.
\<close>

definition on_get_poll ::
  "Global \<Rightarrow> PollManager \<Rightarrow> int \<Rightarrow> poll_server option \<Rightarrow> pollResults option
     \<Rightarrow> failure + PollManager \<times> int option" where
  "on_get_poll G s poll_id0 poll_server poll_results =
     (let poll_id = (case poll_server of
                       None \<Rightarrow> poll_id0
                     | Some ps \<Rightarrow> if \<not> PollId_is_valid G poll_id0 then poll_server_id ps else poll_id0)
      in if \<not> PollId_is_valid G poll_id \<or> is_local_poll_id poll_id then Inr (s, None)
         else if (case poll_server of None \<Rightarrow> False | Some ps \<Rightarrow> poll_server_id ps \<noteq> poll_id)
         then Inr (s, None)
         else
           (case get_poll_force G s poll_id of
              Inl e \<Rightarrow> Inl e
            | Inr (s1, found) \<Rightarrow>
                (if found = None \<and> poll_server = None then Inr (s1, None)
                 else
                   (let poll0 = (case found of None \<Rightarrow> Poll_default | Some p \<Rightarrow> p);
                        (poll1, c1) = (case poll_server of
                                         None \<Rightarrow> (poll0, False)
                                       | Some ps \<Rightarrow> merge_poll_server G poll0 ps False)
                    in (case poll_results of
                          None \<Rightarrow> Inl (CheckFailed ''poll_results != nullptr'')
                        | Some pr \<Rightarrow>
                            (let (poll2, is_changed) = merge_poll_results G poll1 pr c1;
                                 s2 = s1\<lparr>polls := (polls s1)(poll_id \<mapsto> poll2)\<rparr>
                             in if is_changed then
                                  (case save_poll G (notify_on_poll_update s2 poll_id) poll2 poll_id of
                                     Inl e \<Rightarrow> Inl e
                                   | Inr s3 \<Rightarrow> Inr (s3, Some poll_id))
                                else Inr (s2, Some poll_id)))))))"

section \<open>Crash recovery replay\<close>

datatype HandlerType = SetPollAnswer | OtherHandler nat

record BinlogEvent =
  event_id :: "64 word"
  event_type :: HandlerType
  event_data :: string

text \<open>
  The body of the loop of \<^verbatim>\<open>on_binlog_events\<close>. Resolving the dependencies of the dialog is the
  work of the messages manager and changes nothing here.
\<close>

definition on_binlog_event :: "Global \<Rightarrow> PollManager \<Rightarrow> BinlogEvent \<Rightarrow> failure + PollManager" where
  "on_binlog_event G s event =
     (case event_type event of
        SetPollAnswer \<Rightarrow>
          (if \<not> use_message_db G then Inr (binlog_erase s (event_id event))
           else
             (case log_event_parse_SetPollAnswer G (event_data event) of
                None \<Rightarrow> Inl (Fatal ''log_event_parse'')
              | Some log_event \<Rightarrow>
                  do_set_poll_answer G s (le_poll_id log_event) (le_full_message_id log_event)
                    (le_options log_event) (event_id event) Auto))
      | OtherHandler n \<Rightarrow> Inl (Fatal ''Unsupported logevent type''))"

fun on_binlog_events :: "Global \<Rightarrow> PollManager \<Rightarrow> BinlogEvent list \<Rightarrow> failure + PollManager" where
  "on_binlog_events G s [] = Inr s"
| "on_binlog_events G s (event # events) =
     (case on_binlog_event G s event of
        Inl e \<Rightarrow> Inl e
      | Inr s1 \<Rightarrow> on_binlog_events G s1 events)"

section \<open>Runs of the manager\<close>

text \<open>
  The manager handles one message at a time. An operation is one call of a public function;
  a run applies operations in order, each under the globals of its moment, and stops at the
  first abort.
\<close>

datatype operation =
    Op_create_poll string "string list"
  | Op_register_poll int FullMessageId
  | Op_unregister_poll int FullMessageId
  | Op_set_poll_answer int FullMessageId "int list" Promise
  | Op_on_set_poll_answer int "64 word" Result
  | Op_close_poll int
  | Op_on_get_poll int "poll_server option" "pollResults option"
  | Op_on_binlog_events "BinlogEvent list"

fun step :: "Global \<Rightarrow> PollManager \<Rightarrow> operation \<Rightarrow> failure + PollManager" where
  "step G s (Op_create_poll q option_texts) = map_sum id fst (create_poll s q option_texts)"
| "step G s (Op_register_poll poll_id m) = register_poll s poll_id m"
| "step G s (Op_unregister_poll poll_id m) = unregister_poll s poll_id m"
| "step G s (Op_set_poll_answer poll_id m option_ids promise) =
     set_poll_answer G s poll_id m option_ids promise"
| "step G s (Op_on_set_poll_answer poll_id generation result) =
     on_set_poll_answer G s poll_id generation result"
| "step G s (Op_close_poll poll_id) = close_poll G s poll_id"
| "step G s (Op_on_get_poll poll_id ps pr) = map_sum id fst (on_get_poll G s poll_id ps pr)"
| "step G s (Op_on_binlog_events events) = on_binlog_events G s events"

fun run :: "PollManager \<Rightarrow> (Global \<times> operation) list \<Rightarrow> failure + PollManager" where
  "run s [] = Inr s"
| "run s ((G, operation) # rest) =
     (case step G s operation of
        Inl e \<Rightarrow> Inl e
      | Inr s1 \<Rightarrow> run s1 rest)"

section \<open>Auxiliary notions and example states\<close>

text \<open>A manager that has just been constructed, and globals with the message database in use.\<close>

definition PollManager_init :: PollManager where
  "PollManager_init =
     \<lparr>polls = Map.empty, poll_messages = Map.empty, pending_answers = Map.empty,
      current_generation = 0, current_local_poll_id = 0, loaded_from_database_polls = {},
      binlog = [], binlog_next_id = 1, sqlite_pmc = [], content_updates = [],
      promise_results = [], sent_queries = [], cancelled_queries = []\<rparr>"

definition example_Global :: Global where
  "example_Global =
     \<lparr>use_message_db = True, close_flag = False, have_input_peer = (\<lambda>dialog_id. True),
      PollId_is_valid = (\<lambda>poll_id. poll_id \<noteq> 0),
      CLOSED_MASK = 1, MIN_MASK = 1, TOTAL_VOTERS_MASK = 4, CHOSEN_MASK = 1,
      log_event_store_Poll = question, log_event_parse_Poll = (\<lambda>v. None),
      log_event_parse_SetPollAnswer = (\<lambda>v. None)\<rparr>"

text \<open>A pending answer of generation 2 for poll 7.\<close>

definition example_pending :: PollManager where
  "example_pending =
     PollManager_init\<lparr>pending_answers :=
        [7 \<mapsto> \<lparr>pa_options = [''0''], pa_promises = [Promise 1], pa_generation = 2,
                 pa_logevent_id = 5, pa_query_ref = Some 1\<rparr>],
        current_generation := 2\<rparr>"

text \<open>A local poll with the options A and B, as \<^verbatim>\<open>create_poll\<close> leaves it.\<close>

definition example_local :: PollManager where
  "example_local =
     PollManager_init\<lparr>polls :=
        [- 1 \<mapsto> \<lparr>question = ''Q'',
                   options = [\<lparr>text = ''A'', data = ''0'', voter_count = 0, is_chosen = False\<rparr>,
                              \<lparr>text = ''B'', data = ''1'', voter_count = 0, is_chosen = False\<rparr>],
                   total_voter_count = 0, is_closed = False\<rparr>],
        current_local_poll_id := - 1\<rparr>"

text \<open>Poll 7 with a confirmed vote for option A and a pending answer for option B.\<close>

definition example_voted_poll :: Poll where
  "example_voted_poll =
     \<lparr>question = ''Q'',
      options = [\<lparr>text = ''A'', data = ''0'', voter_count = 5, is_chosen = True\<rparr>,
                 \<lparr>text = ''B'', data = ''1'', voter_count = 0, is_chosen = False\<rparr>],
      total_voter_count = 5, is_closed = False\<rparr>"

definition example_voted_answer :: PendingAnswer where
  "example_voted_answer =
     \<lparr>pa_options = [''1''], pa_promises = [Promise 1], pa_generation = 1,
      pa_logevent_id = 1, pa_query_ref = Some 0\<rparr>"

definition example_voted :: PollManager where
  "example_voted =
     PollManager_init\<lparr>polls := [7 \<mapsto> example_voted_poll],
                       pending_answers := [7 \<mapsto> example_voted_answer],
                       current_generation := 1\<rparr>"

text \<open>The invariant of the pending answers: each of them has a promise.\<close>

definition pending_answers_have_promises :: "PollManager \<Rightarrow> bool" where
  "pending_answers_have_promises s \<longleftrightarrow>
     (\<forall>poll_id pending_answer.
        pending_answers s poll_id = Some pending_answer \<longrightarrow> pa_promises pending_answer \<noteq> [])"

text \<open>Poll 7 as the server confirmed it, shown in one message, with no vote of the user.\<close>

definition example_confirmed_poll :: Poll where
  "example_confirmed_poll =
     \<lparr>question = ''Q'',
      options = [\<lparr>text = ''A'', data = ''0'', voter_count = 5, is_chosen = False\<rparr>,
                 \<lparr>text = ''B'', data = ''1'', voter_count = 0, is_chosen = False\<rparr>],
      total_voter_count = 5, is_closed = False\<rparr>"

definition example_confirmed :: PollManager where
  "example_confirmed =
     PollManager_init\<lparr>polls := [7 \<mapsto> example_confirmed_poll],
                       poll_messages := [7 \<mapsto> [FullMessageId 3 4]]\<rparr>"

text \<open>What one tally entry does to one option (the body of the inner loop of the results).\<close>

definition apply_poll_result_to :: "bool \<Rightarrow> 32 word \<Rightarrow> pollAnswerVoters \<Rightarrow> PollOption \<Rightarrow> PollOption" where
  "apply_poll_result_to is_min chosen_mask poll_result opt =
     (if data opt \<noteq> poll_result_option poll_result then opt
      else opt\<lparr>is_chosen := (if is_min then is_chosen opt
                               else poll_result_flags poll_result AND chosen_mask \<noteq> 0),
               voter_count := poll_result_voters poll_result\<rparr>)"

text \<open>Minimal results with a tally of 6 voters for the key 0 and a tally for an unknown key.\<close>

definition example_min_results :: pollResults where
  "example_min_results =
     \<lparr>poll_results_flags = 1,
      poll_results_results =
        [\<lparr>poll_result_flags = 0, poll_result_option = ''0'', poll_result_voters = 6\<rparr>,
         \<lparr>poll_result_flags = 1, poll_result_option = ''9'', poll_result_voters = 3\<rparr>],
      poll_results_total_voters = 0\<rparr>"

text \<open>
  The operations that cannot clear the closed flag of a poll: all but a reconciliation that
  carries a payload for this poll without the closed flag.
\<close>

fun keeps_closed :: "Global \<Rightarrow> int \<Rightarrow> operation \<Rightarrow> bool" where
  "keeps_closed G poll_id (Op_on_get_poll poll_id0 (Some ps) pr) \<longleftrightarrow>
     poll_server_id ps \<noteq> poll_id \<or> poll_server_flags ps AND CLOSED_MASK G \<noteq> 0"
| "keeps_closed G poll_id operation \<longleftrightarrow> True"

definition poll_is_closed :: "PollManager \<Rightarrow> int \<Rightarrow> bool" where
  "poll_is_closed s poll_id \<longleftrightarrow> (case polls s poll_id of None \<Rightarrow> False | Some poll \<Rightarrow> is_closed poll)"

text \<open>Payloads of the server for poll 7, open and closed, results without tally entries, and
  the states after closing poll 7 and after the open payload has arrived.\<close>

definition example_poll_server :: poll_server where
  "example_poll_server =
     \<lparr>poll_server_id = 7, poll_server_flags = 0, poll_server_question = ''Q'',
      poll_server_answers = [\<lparr>pollAnswer_text = ''A'', pollAnswer_option = ''0''\<rparr>,
                             \<lparr>pollAnswer_text = ''B'', pollAnswer_option = ''1''\<rparr>]\<rparr>"

definition example_no_results :: pollResults where
  "example_no_results =
     \<lparr>poll_results_flags = 0, poll_results_results = [], poll_results_total_voters = 0\<rparr>"

definition example_closed :: PollManager where
  "example_closed =
     example_confirmed\<lparr>polls := [7 \<mapsto> example_confirmed_poll\<lparr>is_closed := True\<rparr>],
                        sqlite_pmc := [(''poll7'', ''Q'')],
                        content_updates := [FullMessageId 3 4]\<rparr>"

definition example_reopened :: PollManager where
  "example_reopened =
     example_confirmed\<lparr>sqlite_pmc := [(''poll7'', ''Q''), (''poll7'', ''Q'')],
                        content_updates := [FullMessageId 3 4, FullMessageId 3 4]\<rparr>"

definition example_closed_poll_server :: poll_server where
  "example_closed_poll_server = example_poll_server\<lparr>poll_server_flags := 1\<rparr>"

text \<open>
  Results with two tally entries for the key 0, and the states of poll 7 after one and two
  notifications and writes, and after the tally of 6 voters has been applied.
\<close>

definition example_dup_results :: pollResults where
  "example_dup_results =
     \<lparr>poll_results_flags = 1,
      poll_results_results =
        [\<lparr>poll_result_flags = 0, poll_result_option = ''0'', poll_result_voters = 6\<rparr>,
         \<lparr>poll_result_flags = 0, poll_result_option = ''0'', poll_result_voters = 5\<rparr>],
      poll_results_total_voters = 0\<rparr>"

definition example_saved_once :: PollManager where
  "example_saved_once =
     example_confirmed\<lparr>sqlite_pmc := [(''poll7'', ''Q'')],
                        content_updates := [FullMessageId 3 4]\<rparr>"

definition example_saved_twice :: PollManager where
  "example_saved_twice =
     example_confirmed\<lparr>sqlite_pmc := [(''poll7'', ''Q''), (''poll7'', ''Q'')],
                        content_updates := [FullMessageId 3 4, FullMessageId 3 4]\<rparr>"

definition example_tallied :: PollManager where
  "example_tallied =
     example_confirmed\<lparr>polls :=
        [7 \<mapsto> example_confirmed_poll\<lparr>options :=
                 [\<lparr>text = ''A'', data = ''0'', voter_count = 6, is_chosen = False\<rparr>,
                  \<lparr>text = ''B'', data = ''1'', voter_count = 0, is_chosen = False\<rparr>]\<rparr>],
        sqlite_pmc := [(''poll7'', ''Q'')],
        content_updates := [FullMessageId 3 4]\<rparr>"

text \<open>
  Globals of a process that is closing; poll 7 after a first vote for option A by promise 1;
  after a second vote for option B by promise 2; and after a second vote for option A.
\<close>

definition example_closing_Global :: Global where
  "example_closing_Global = example_Global\<lparr>close_flag := True\<rparr>"

definition example_voting :: PollManager where
  "example_voting =
     example_confirmed
       \<lparr>pending_answers :=
          [7 \<mapsto> \<lparr>pa_options = [''0''], pa_promises = [Promise 1], pa_generation = 1,
                   pa_logevent_id = 1, pa_query_ref = Some 0\<rparr>],
        current_generation := 1,
        binlog := [BinlogAdd 1 \<lparr>le_poll_id = 7, le_full_message_id = FullMessageId 3 4,
                                le_options = [''0'']\<rparr>],
        binlog_next_id := 2,
        content_updates := [FullMessageId 3 4],
        sent_queries := [\<lparr>query_poll_id = 7, query_generation = 1,
                          query_full_message_id = FullMessageId 3 4, query_options = [''0''],
                          query_failed = None\<rparr>]\<rparr>"

definition example_revoting :: PollManager where
  "example_revoting =
     example_voting
       \<lparr>pending_answers :=
          [7 \<mapsto> \<lparr>pa_options = [''1''], pa_promises = [Promise 2], pa_generation = 2,
                   pa_logevent_id = 1, pa_query_ref = Some 1\<rparr>],
        current_generation := 2,
        binlog := [BinlogAdd 1 \<lparr>le_poll_id = 7, le_full_message_id = FullMessageId 3 4,
                                le_options = [''0'']\<rparr>,
                   BinlogRewrite 1 \<lparr>le_poll_id = 7, le_full_message_id = FullMessageId 3 4,
                                    le_options = [''1'']\<rparr>],
        content_updates := [FullMessageId 3 4, FullMessageId 3 4],
        promise_results := [(Promise 1, Ok)],
        sent_queries := [\<lparr>query_poll_id = 7, query_generation = 1,
                          query_full_message_id = FullMessageId 3 4, query_options = [''0''],
                          query_failed = None\<rparr>,
                         \<lparr>query_poll_id = 7, query_generation = 2,
                          query_full_message_id = FullMessageId 3 4, query_options = [''1''],
                          query_failed = None\<rparr>],
        cancelled_queries := [0]\<rparr>"

definition example_coalesced :: PollManager where
  "example_coalesced =
     example_voting
       \<lparr>pending_answers :=
          [7 \<mapsto> \<lparr>pa_options = [''0''], pa_promises = [Promise 1, Promise 2], pa_generation = 1,
                   pa_logevent_id = 1, pa_query_ref = Some 0\<rparr>]\<rparr>"

text \<open>
  The poll id a log event decodes to; what it means that a query replays a log event (same poll,
  message and options) and that a log event has been replayed into a state (the pending answer
  of its poll carries the id of the event, the options of the event and the promise
  \<^verbatim>\<open>Auto()\<close> alone).
\<close>

definition event_poll_id :: "Global \<Rightarrow> BinlogEvent \<Rightarrow> int option" where
  "event_poll_id G event = map_option le_poll_id (log_event_parse_SetPollAnswer G (event_data event))"

definition replayed_by :: "Global \<Rightarrow> BinlogEvent \<Rightarrow> SentQuery \<Rightarrow> bool" where
  "replayed_by G event query \<longleftrightarrow>
     (case log_event_parse_SetPollAnswer G (event_data event) of
        None \<Rightarrow> False
      | Some log_event \<Rightarrow>
          query_poll_id query = le_poll_id log_event
          \<and> query_full_message_id query = le_full_message_id log_event
          \<and> query_options query = le_options log_event)"

definition replayed_into :: "Global \<Rightarrow> BinlogEvent \<Rightarrow> PollManager \<Rightarrow> bool" where
  "replayed_into G event s \<longleftrightarrow>
     (case log_event_parse_SetPollAnswer G (event_data event) of
        None \<Rightarrow> False
      | Some log_event \<Rightarrow>
          (case pending_answers s (le_poll_id log_event) of
             None \<Rightarrow> False
           | Some pending_answer \<Rightarrow>
               pa_logevent_id pending_answer = event_id event
               \<and> pa_promises pending_answer = [Auto]
               \<and> pa_options pending_answer = le_options log_event))"

text \<open>
  A restart with one log event, of id 1, for a vote for option A of poll 7; the codec decodes
  the bytes of the event.
\<close>

definition example_replay_Global :: Global where
  "example_replay_Global =
     example_Global\<lparr>log_event_parse_SetPollAnswer :=
       (\<lambda>v. if v = ''vote''
             then Some \<lparr>le_poll_id = 7, le_full_message_id = FullMessageId 3 4,
                        le_options = [''0'']\<rparr>
             else None)\<rparr>"

definition example_event :: BinlogEvent where
  "example_event = \<lparr>event_id = 1, event_type = SetPollAnswer, event_data = ''vote''\<rparr>"

definition example_restarted :: PollManager where
  "example_restarted = example_confirmed\<lparr>binlog_next_id := 2\<rparr>"

definition example_replayed :: PollManager where
  "example_replayed =
     example_restarted
       \<lparr>pending_answers :=
          [7 \<mapsto> \<lparr>pa_options = [''0''], pa_promises = [Auto], pa_generation = 1,
                   pa_logevent_id = 1, pa_query_ref = Some 0\<rparr>],
        current_generation := 1,
        content_updates := [FullMessageId 3 4],
        sent_queries := [\<lparr>query_poll_id = 7, query_generation = 1,
                          query_full_message_id = FullMessageId 3 4, query_options = [''0''],
                          query_failed = None\<rparr>]\<rparr>"

text \<open>
  The invariant of the generations: while fewer than \<open>2 ^ 64\<close> queries have been sent, the
  counter counts them and bounds the generation of every query and of every pending answer.
\<close>

definition generations_counted :: "PollManager \<Rightarrow> bool" where
  "generations_counted s \<longleftrightarrow>
     (length (sent_queries s) < 2 ^ 64 \<longrightarrow>
        unat (current_generation s) = length (sent_queries s)
        \<and> (\<forall>query \<in> set (sent_queries s). query_generation query \<le> current_generation s)
        \<and> (\<forall>poll_id pending_answer.
              pending_answers s poll_id = Some pending_answer
                \<longrightarrow> pa_generation pending_answer \<le> current_generation s))"

section \<open>Properties\<close>

subsection \<open>Stale completions\<close>

text \<open>
  Claim C3. A completion \<^verbatim>\<open>on_set_poll_answer(poll_id, generation, result)\<close> that finds no
  pending answer for the poll, or one of another generation, changes nothing: whenever the
  handler returns, it returns the state it was given (no log entry erased, no promise set, the
  pending answer kept), and it does return when the pending answer it finds has a promise, which
  is the assertion at its head.
\<close>

theorem on_set_poll_answer_stale:
  assumes "pending_answers s poll_id = None
           \<or> (\<exists>pa. pending_answers s poll_id = Some pa \<and> pa_generation pa \<noteq> generation)"
  shows "(\<forall>s'. on_set_poll_answer G s poll_id generation result = Inr s' \<longrightarrow> s' = s)
         \<and> ((\<forall>pa. pending_answers s poll_id = Some pa \<longrightarrow> pa_promises pa \<noteq> [])
              \<longrightarrow> on_set_poll_answer G s poll_id generation result = Inr s)"
  using assms by (auto simp: on_set_poll_answer_def split: option.splits)

theorem on_set_poll_answer_stale_witness:
  "on_set_poll_answer example_Global example_pending 7 1 Ok = Inr example_pending
   \<and> on_set_poll_answer example_Global example_pending 8 2 Ok = Inr example_pending"
  using on_set_poll_answer_stale [of example_pending 7 1 example_Global Ok]
        on_set_poll_answer_stale [of example_pending 8 2 example_Global Ok]
  by (simp add: example_pending_def PollManager_init_def)

subsection \<open>Validation of a vote\<close>

lemma get_chosen_options_None:
  "get_chosen_options poll option_ids acc = None
   \<longleftrightarrow> (\<exists>option_id \<in> set option_ids. nat (option_id mod 2 ^ 64) \<ge> length (options poll))"
  by (induction option_ids arbitrary: acc) (auto simp: Let_def)

text \<open>
  Claim C8. When \<^verbatim>\<open>set_poll_answer\<close> is given more than one option id, or a local poll id, or
  the id of a poll that is closed, or an option id that (cast to \<^verbatim>\<open>size_t\<close>) is not an index of
  the options of the poll, it sets an error on the promise of the caller and changes nothing
  else: the polls, the pending answers, the binlog, the messages of the polls and the issued
  queries are those of the state before.
\<close>

theorem set_poll_answer_validation:
  assumes "length option_ids > 1 \<or> is_local_poll_id poll_id
           \<or> (\<exists>poll. polls s poll_id = Some poll
                 \<and> (is_closed poll
                     \<or> (\<exists>option_id \<in> set option_ids.
                           nat (option_id mod 2 ^ 64) \<ge> length (options poll))))"
  shows "\<exists>code message.
           set_poll_answer G s poll_id full_message_id option_ids promise
             = Inr (s\<lparr>promise_results := promise_results s @ [(promise, Error code message)]\<rparr>)"
proof (cases "length option_ids > 1 \<or> is_local_poll_id poll_id")
  case True
  then show ?thesis
    by (auto simp: set_poll_answer_def set_error_def)
next
  case False
  with assms obtain poll where poll: "polls s poll_id = Some poll"
    and bad: "is_closed poll \<or> get_chosen_options poll option_ids [] = None"
    by (auto simp: get_chosen_options_None)
  show ?thesis
  proof (cases "is_closed poll")
    case True
    with False poll show ?thesis
      by (auto simp: set_poll_answer_def set_error_def get_poll_def)
  next
    case open_poll: False
    with bad have "get_chosen_options poll option_ids [] = None" by simp
    with False poll open_poll show ?thesis
      by (auto simp: set_poll_answer_def set_error_def get_poll_def)
  qed
qed

theorem set_poll_answer_validation_witness:
  "is_local_poll_id (- 1)
   \<and> (\<exists>code message.
         set_poll_answer example_Global example_local (- 1) (FullMessageId 3 4) [0] (Promise 9)
           = Inr (example_local\<lparr>promise_results := [(Promise 9, Error code message)]\<rparr>))"
  using set_poll_answer_validation
          [of "[0]" "- 1" example_local example_Global "FullMessageId 3 4" "Promise 9"]
  by (simp add: is_local_poll_id_def example_local_def PollManager_init_def)

subsection \<open>The rendered total voter count\<close>

lemma overlay_options_diff:
  "snd (overlay_options chosen_options poll_options acc d)
     = (if \<exists>poll_option \<in> set poll_options. is_chosen poll_option then - 1 else d)"
  by (induction poll_options arbitrary: acc d) (auto simp: Let_def)

text \<open>
  Claim C7, as amended. For a poll with a pending answer, the \<^verbatim>\<open>total_voter_count\<close> of the
  rendered object is the confirmed \<^verbatim>\<open>total_voter_count\<close>, minus 1 when some option of the poll
  is confirmed as chosen, plus 1 when the pending list of chosen options is not empty (in
  \<^verbatim>\<open>int32\<close> arithmetic). So the claim as stated holds for a poll in which no option is
  confirmed as chosen.
\<close>

theorem get_poll_object_total_voter_count:
  assumes "polls s poll_id = Some poll" and "pending_answers s poll_id = Some pending_answer"
  shows "\<exists>poll_object. get_poll_object s poll_id = Inr poll_object
           \<and> td_total_voter_count poll_object
               = total_voter_count poll
                 + (if \<exists>poll_option \<in> set (options poll). is_chosen poll_option then - 1 else 0)
                 + (if pa_options pending_answer \<noteq> [] then 1 else 0)"
proof -
  obtain poll_options d where ov:
    "overlay_options (pa_options pending_answer) (options poll) [] 0 = (poll_options, d)"
    by (cases "overlay_options (pa_options pending_answer) (options poll) [] 0")
  have "d = (if \<exists>poll_option \<in> set (options poll). is_chosen poll_option then - 1 else 0)"
    using overlay_options_diff [of "pa_options pending_answer" "options poll" "[]" 0] ov
    by simp
  with assms ov show ?thesis
    by (simp add: get_poll_object_def get_poll_def)
qed

theorem get_poll_object_total_voter_count_witness:
  "polls example_voted 7 = Some example_voted_poll
   \<and> pending_answers example_voted 7 = Some example_voted_answer
   \<and> (\<exists>poll_object. get_poll_object example_voted 7 = Inr poll_object
         \<and> td_total_voter_count poll_object = 5)"
  using get_poll_object_total_voter_count
          [of example_voted 7 example_voted_poll example_voted_answer]
  by (simp add: example_voted_def example_voted_poll_def example_voted_answer_def
        PollManager_init_def)

text \<open>
  The claim as stated fails for a poll with a confirmed vote: the pending list is not empty and
  the rendered total is the confirmed total 5, not 6.
\<close>

theorem get_poll_object_total_voter_count_counterexample:
  "pending_answers example_voted 7 = Some example_voted_answer
   \<and> pa_options example_voted_answer \<noteq> []
   \<and> polls example_voted 7 = Some example_voted_poll
   \<and> total_voter_count example_voted_poll = 5
   \<and> get_poll_object example_voted 7
       = Inr (td_api_poll ''Q'' [td_api_pollOption ''A'' 4 False, td_api_pollOption ''B'' 1 True]
                5 False)"
  by (simp add: example_voted_def example_voted_poll_def example_voted_answer_def
        PollManager_init_def get_poll_object_def get_poll_def)

subsection \<open>Pending answers always have a promise\<close>

lemma pending_answers_fold_set_value [simp]:
  "pending_answers (fold (\<lambda>p s'. set_value s' p) ps s) = pending_answers s"
  by (induction ps arbitrary: s) (simp_all add: set_value_def)

lemma pending_answers_fold_result [simp]:
  "pending_answers (fold (\<lambda>p s'. case result of Ok \<Rightarrow> set_value s' p
                                   | Error c m \<Rightarrow> set_error s' p (Error c m)) ps s)
     = pending_answers s"
  by (induction ps arbitrary: s) (simp_all add: set_value_def set_error_def split: Result.splits)

lemma pending_answers_notify [simp]:
  "pending_answers (notify_on_poll_update s poll_id) = pending_answers s"
  by (simp add: notify_on_poll_update_def split: option.splits)

lemma pending_answers_write_logevent:
  "write_logevent G s pa poll_id m opts l = Inr (s1, l1) \<Longrightarrow> pending_answers s1 = pending_answers s"
  by (auto simp: write_logevent_def binlog_add_def binlog_rewrite_def Let_def split: if_splits)

lemma pending_answers_supersede:
  "supersede s pa = Inr (s2, pa2) \<Longrightarrow> pending_answers s2 = pending_answers s"
  by (auto simp: supersede_def cancel_query_def split: if_splits option.splits)

lemma pending_answers_send:
  "SetPollAnswerQuery_send G s poll_id m opts g q = (s5, q5) \<Longrightarrow> pending_answers s5 = pending_answers s"
  by (auto simp: SetPollAnswerQuery_send_def split: if_splits)

lemma do_set_poll_answer_pending:
  assumes "do_set_poll_answer G s poll_id m opts l promise = Inr s'"
  shows "\<exists>pa. pending_answers s' = (pending_answers s)(poll_id \<mapsto> pa) \<and> pa_promises pa \<noteq> []"
  using assms
  by (auto simp: do_set_poll_answer_def Let_def
           dest!: pending_answers_write_logevent pending_answers_supersede pending_answers_send
           split: if_splits sum.splits prod.splits)

lemma pending_answers_save_poll:
  "save_poll G s poll poll_id = Inr s' \<Longrightarrow> pending_answers s' = pending_answers s"
  by (auto simp: save_poll_def sqlite_set_def split: if_splits)

lemma pending_answers_get_poll_force:
  "get_poll_force G s poll_id = Inr (s', found) \<Longrightarrow> pending_answers s' = pending_answers s"
  by (auto simp: get_poll_force_def on_load_poll_from_database_def Let_def
           split: option.splits if_splits sum.splits)

lemma pending_answers_on_get_poll:
  "on_get_poll G s poll_id ps pr = Inr (s', r) \<Longrightarrow> pending_answers s' = pending_answers s"
  by (auto simp: on_get_poll_def Let_def
           dest!: pending_answers_get_poll_force pending_answers_save_poll
           split: option.splits if_splits sum.splits prod.splits)

lemma pending_answers_close_poll:
  "close_poll G s poll_id = Inr s' \<Longrightarrow> pending_answers s' = pending_answers s"
  by (auto simp: close_poll_def Let_def dest!: pending_answers_save_poll
           split: option.splits if_splits)

lemma pending_answers_create_poll:
  "create_poll s q ts = Inr (s', r) \<Longrightarrow> pending_answers s' = pending_answers s"
  by (auto simp: create_poll_def Let_def split: if_splits)

lemma pending_answers_register_poll:
  "register_poll s poll_id m = Inr s' \<Longrightarrow> pending_answers s' = pending_answers s"
  by (auto simp: register_poll_def split: if_splits)

lemma pending_answers_unregister_poll:
  "unregister_poll s poll_id m = Inr s' \<Longrightarrow> pending_answers s' = pending_answers s"
  by (auto simp: unregister_poll_def split: if_splits)

lemma do_set_poll_answer_have_promises:
  assumes "pending_answers_have_promises s"
    and "do_set_poll_answer G s poll_id m opts l promise = Inr s'"
  shows "pending_answers_have_promises s'"
  using assms(1) do_set_poll_answer_pending [OF assms(2)]
  by (auto simp: pending_answers_have_promises_def split: if_splits)

lemma set_poll_answer_have_promises:
  assumes "pending_answers_have_promises s"
    and "set_poll_answer G s poll_id m option_ids promise = Inr s'"
  shows "pending_answers_have_promises s'"
  using assms
  by (auto simp: set_poll_answer_def set_error_def pending_answers_have_promises_def
           dest!: do_set_poll_answer_pending split: if_splits option.splits)

lemma on_set_poll_answer_have_promises:
  assumes "pending_answers_have_promises s"
    and "on_set_poll_answer G s poll_id generation result = Inr s'"
  shows "pending_answers_have_promises s'"
  using assms
  by (auto simp: on_set_poll_answer_def pending_answers_have_promises_def Let_def
                 binlog_erase_def
           split: if_splits option.splits)

lemma on_binlog_event_have_promises:
  assumes "pending_answers_have_promises s" and "on_binlog_event G s event = Inr s'"
  shows "pending_answers_have_promises s'"
  using assms
  by (auto simp: on_binlog_event_def binlog_erase_def pending_answers_have_promises_def
           dest!: do_set_poll_answer_pending
           split: HandlerType.splits if_splits option.splits)

lemma on_binlog_events_have_promises:
  "pending_answers_have_promises s \<Longrightarrow> on_binlog_events G s events = Inr s'
     \<Longrightarrow> pending_answers_have_promises s'"
proof (induction events arbitrary: s)
  case Nil
  then show ?case by simp
next
  case (Cons event events)
  then show ?case
    by (auto split: sum.splits dest: on_binlog_event_have_promises)
qed

lemma step_have_promises:
  assumes "pending_answers_have_promises s" and "step G s operation = Inr s'"
  shows "pending_answers_have_promises s'"
proof (cases operation)
  case (Op_create_poll q ts)
  with assms show ?thesis
    by (cases "create_poll s q ts")
       (auto simp: pending_answers_have_promises_def dest!: pending_answers_create_poll)
next
  case (Op_register_poll poll_id m)
  with assms show ?thesis
    by (auto simp: pending_answers_have_promises_def dest!: pending_answers_register_poll)
next
  case (Op_unregister_poll poll_id m)
  with assms show ?thesis
    by (auto simp: pending_answers_have_promises_def dest!: pending_answers_unregister_poll)
next
  case (Op_set_poll_answer poll_id m option_ids promise)
  with assms show ?thesis
    by (auto dest: set_poll_answer_have_promises)
next
  case (Op_on_set_poll_answer poll_id generation result)
  with assms show ?thesis
    by (auto dest: on_set_poll_answer_have_promises)
next
  case (Op_close_poll poll_id)
  with assms show ?thesis
    by (auto simp: pending_answers_have_promises_def dest!: pending_answers_close_poll)
next
  case (Op_on_get_poll poll_id ps pr)
  with assms show ?thesis
    by (cases "on_get_poll G s poll_id ps pr")
       (auto simp: pending_answers_have_promises_def dest!: pending_answers_on_get_poll)
next
  case (Op_on_binlog_events events)
  with assms show ?thesis
    by (auto dest: on_binlog_events_have_promises)
qed

lemma run_have_promises:
  "pending_answers_have_promises s \<Longrightarrow> run s operations = Inr s'
     \<Longrightarrow> pending_answers_have_promises s'"
proof (induction operations arbitrary: s)
  case Nil
  then show ?case by simp
next
  case (Cons a operations)
  obtain G operation where a: "a = (G, operation)" by (cases a)
  with Cons show ?case
    by (auto split: sum.splits dest: step_have_promises)
qed

text \<open>
  Claim C10. In every state that a run of operations reaches from a state without pending
  answers (as the manager is when constructed), every pending answer has at least one promise;
  so the assertion \<^verbatim>\<open>CHECK(!pending_answer.promises_.empty())\<close> of the completion handler never
  fails there, whatever completion arrives.
\<close>

theorem pending_answers_never_empty:
  assumes "pending_answers s0 = Map.empty" and "run s0 operations = Inr s"
  shows "(\<forall>poll_id pending_answer.
            pending_answers s poll_id = Some pending_answer \<longrightarrow> pa_promises pending_answer \<noteq> [])
         \<and> (\<forall>G poll_id generation result.
               on_set_poll_answer G s poll_id generation result
                 \<noteq> Inl (CheckFailed ''!pending_answer.promises_.empty()''))"
proof -
  from assms(1) have "pending_answers_have_promises s0"
    by (simp add: pending_answers_have_promises_def)
  then have inv: "pending_answers_have_promises s"
    using assms(2) by (rule run_have_promises)
  then show ?thesis
    by (auto simp: pending_answers_have_promises_def on_set_poll_answer_def Let_def
             split: option.splits if_splits)
qed

theorem pending_answers_never_empty_witness:
  "pending_answers example_confirmed = Map.empty
   \<and> (\<exists>s. run example_confirmed
               [(example_Global, Op_set_poll_answer 7 (FullMessageId 3 4) [0] (Promise 1))] = Inr s
          \<and> pending_answers s 7 \<noteq> None
          \<and> (\<forall>poll_id pending_answer.
                pending_answers s poll_id = Some pending_answer
                  \<longrightarrow> pa_promises pending_answer \<noteq> []))"
proof -
  have empty: "pending_answers example_confirmed = Map.empty"
    by (simp add: example_confirmed_def PollManager_init_def)
  obtain s where run: "run example_confirmed
      [(example_Global, Op_set_poll_answer 7 (FullMessageId 3 4) [0] (Promise 1))] = Inr s"
    and some: "pending_answers s 7 \<noteq> None"
    by (simp add: example_confirmed_def example_confirmed_poll_def PollManager_init_def
          example_Global_def set_poll_answer_def get_poll_def is_local_poll_id_def do_set_poll_answer_def
          PendingAnswer_default_def write_logevent_def binlog_add_def supersede_def
          notify_on_poll_update_def SetPollAnswerQuery_send_def Let_def)
  from pending_answers_never_empty [OF empty run] empty run some show ?thesis
    by blast
qed

subsection \<open>Minimal results\<close>

lemma is_chosen_update_eq [simp]: "(opt\<lparr>is_chosen := b\<rparr> = opt) = (is_chosen opt = b)"
  by (auto intro: PollOption.equality dest: arg_cong [where f = is_chosen])

lemma voter_count_update_eq [simp]: "(opt\<lparr>voter_count := v\<rparr> = opt) = (voter_count opt = v)"
  by (auto intro: PollOption.equality dest: arg_cong [where f = voter_count])

lemma is_chosen_voter_count_update_eq [simp]:
  "(opt\<lparr>is_chosen := b, voter_count := v\<rparr> = opt) = (is_chosen opt = b \<and> voter_count opt = v)"
  by (auto intro: PollOption.equality dest: arg_cong [where f = voter_count]
        arg_cong [where f = is_chosen])

lemma apply_poll_result_eq:
  "apply_poll_result is_min m r opts c
     = (map (apply_poll_result_to is_min m r) opts,
        c \<or> map (apply_poll_result_to is_min m r) opts \<noteq> opts)"
proof (induction opts arbitrary: c)
  case Nil
  then show ?case by simp
next
  case (Cons opt opts)
  show ?case
    by (cases "data opt = poll_result_option r")
       (auto simp: Cons.IH apply_poll_result_to_def Let_def)
qed

lemma apply_poll_results_fst:
  "fst (apply_poll_results is_min m rs opts c)
     = fold (\<lambda>r. map (apply_poll_result_to is_min m r)) rs opts"
  by (induction rs arbitrary: opts c) (simp_all add: apply_poll_result_eq)

lemma fold_map_nth:
  "i < length opts \<Longrightarrow>
     fold (\<lambda>r. map (f r)) rs opts ! i = fold f rs (opts ! i)"
  by (induction rs arbitrary: opts) simp_all

lemma length_fold_map [simp]: "length (fold (\<lambda>r. map (f r)) rs opts) = length opts"
  by (induction rs arbitrary: opts) simp_all

lemma fold_min_result:
  "fold (apply_poll_result_to True m) rs opt
     = opt\<lparr>voter_count :=
              (case find (\<lambda>r. poll_result_option r = data opt) (rev rs) of
                 None \<Rightarrow> voter_count opt
               | Some r \<Rightarrow> poll_result_voters r)\<rparr>"
proof (induction rs rule: rev_induct)
  case Nil
  then show ?case by simp
next
  case (snoc r rs)
  then show ?case
    by (simp add: apply_poll_result_to_def)
qed

text \<open>
  The merge of minimal results, relative to the poll it is applied to: the options stay in
  place with their \<^verbatim>\<open>is_chosen\<close>, and the \<^verbatim>\<open>voter_count\<close> of an option is that of the last tally
  entry with its key.
\<close>

lemma merge_poll_results_minimal:
  assumes "poll_results_flags pr AND MIN_MASK G \<noteq> 0"
  shows "length (options (fst (merge_poll_results G poll pr is_changed))) = length (options poll)
     \<and> (\<forall>i < length (options poll).
           is_chosen (options (fst (merge_poll_results G poll pr is_changed)) ! i)
             = is_chosen (options poll ! i)
         \<and> voter_count (options (fst (merge_poll_results G poll pr is_changed)) ! i)
             = (case find (\<lambda>poll_result. poll_result_option poll_result = data (options poll ! i))
                       (rev (poll_results_results pr)) of
                  None \<Rightarrow> voter_count (options poll ! i)
                | Some poll_result \<Rightarrow> poll_result_voters poll_result))
     \<and> (\<forall>poll_result poll_options c.
           (\<forall>poll_option \<in> set poll_options. data poll_option \<noteq> poll_result_option poll_result)
             \<longrightarrow> apply_poll_result True (CHOSEN_MASK G) poll_result poll_options c
                   = (poll_options, c))"
proof -
  have opts: "options (fst (merge_poll_results G poll pr is_changed))
      = fold (\<lambda>r. map (apply_poll_result_to True (CHOSEN_MASK G) r)) (poll_results_results pr)
          (options poll)"
    using assms
    by (simp add: merge_poll_results_def Let_def split_beta apply_poll_results_fst)
  have unmatched: "apply_poll_result True (CHOSEN_MASK G) r os c = (os, c)"
    if "\<forall>poll_option \<in> set os. data poll_option \<noteq> poll_result_option r" for r os c
  proof -
    from that have "map (apply_poll_result_to True (CHOSEN_MASK G) r) os = os"
      by (simp add: apply_poll_result_to_def map_idI)
    then show ?thesis
      by (simp add: apply_poll_result_eq)
  qed
  show ?thesis
    by (simp add: opts fold_map_nth fold_min_result unmatched)
qed

subsection \<open>The closed flag\<close>

lemma is_closed_merge_poll_server:
  "is_closed (fst (merge_poll_server G poll ps c)) \<longleftrightarrow> poll_server_flags ps AND CLOSED_MASK G \<noteq> 0"
  by (auto simp: merge_poll_server_def Let_def split_beta)

lemma is_closed_merge_poll_results:
  "is_closed (fst (merge_poll_results G poll pr c)) = is_closed poll"
  by (simp add: merge_poll_results_def Let_def split_beta)

lemma polls_save_poll:
  "save_poll G s poll poll_id = Inr s' \<Longrightarrow> polls s' = polls s"
  by (auto simp: save_poll_def sqlite_set_def split: if_splits)

lemma polls_notify [simp]: "polls (notify_on_poll_update s poll_id) = polls s"
  by (simp add: notify_on_poll_update_def split: option.splits)

lemma get_poll_force_polls:
  assumes "get_poll_force G s poll_id = Inr (s1, found)"
  shows "found = polls s1 poll_id
         \<and> (\<forall>other. other \<noteq> poll_id \<longrightarrow> polls s1 other = polls s other)
         \<and> (polls s poll_id \<noteq> None \<longrightarrow> polls s1 = polls s)"
  using assms
  by (auto simp: get_poll_force_def on_load_poll_from_database_def Let_def have_poll_def
                 get_poll_def
           split: option.splits if_splits sum.splits)

lemma is_closed_merge_poll_server_eq:
  "merge_poll_server G poll ps c = (poll1, c1)
     \<Longrightarrow> is_closed poll1 \<longleftrightarrow> poll_server_flags ps AND CLOSED_MASK G \<noteq> 0"
  using is_closed_merge_poll_server [of G poll ps c] by simp

lemma is_closed_merge_poll_results_eq:
  "merge_poll_results G poll pr c = (poll2, c2) \<Longrightarrow> is_closed poll2 = is_closed poll"
  using is_closed_merge_poll_results [of G poll pr c] by simp

lemma on_get_poll_closed:
  assumes "on_get_poll G s poll_id0 ps pr = Inr (s', r)"
    and "poll_is_closed s poll_id"
    and "keeps_closed G poll_id (Op_on_get_poll poll_id0 ps pr)"
  shows "poll_is_closed s' poll_id"
proof (cases ps)
  case None
  with assms show ?thesis
    by (auto simp: on_get_poll_def poll_is_closed_def Let_def
             dest!: get_poll_force_polls polls_save_poll is_closed_merge_poll_results_eq
             split: option.splits if_splits sum.splits prod.splits)
next
  case (Some payload)
  with assms show ?thesis
    by (auto simp: on_get_poll_def poll_is_closed_def Let_def
             dest!: get_poll_force_polls polls_save_poll is_closed_merge_poll_results_eq
                    is_closed_merge_poll_server_eq
             split: option.splits if_splits sum.splits prod.splits)
qed

lemma polls_fold_set_value [simp]:
  "polls (fold (\<lambda>p s'. set_value s' p) ps s) = polls s"
  by (induction ps arbitrary: s) (simp_all add: set_value_def)

lemma polls_fold_result [simp]:
  "polls (fold (\<lambda>p s'. case result of Ok \<Rightarrow> set_value s' p
                         | Error c m \<Rightarrow> set_error s' p (Error c m)) ps s) = polls s"
  by (induction ps arbitrary: s) (simp_all add: set_value_def set_error_def split: Result.splits)

lemma polls_write_logevent:
  "write_logevent G s pa poll_id m opts l = Inr (s1, l1) \<Longrightarrow> polls s1 = polls s"
  by (auto simp: write_logevent_def binlog_add_def binlog_rewrite_def Let_def split: if_splits)

lemma polls_supersede: "supersede s pa = Inr (s2, pa2) \<Longrightarrow> polls s2 = polls s"
  by (auto simp: supersede_def cancel_query_def split: if_splits option.splits)

lemma polls_send:
  "SetPollAnswerQuery_send G s poll_id m opts g q = (s5, q5) \<Longrightarrow> polls s5 = polls s"
  by (auto simp: SetPollAnswerQuery_send_def split: if_splits)

lemma polls_do_set_poll_answer:
  "do_set_poll_answer G s poll_id m opts l promise = Inr s' \<Longrightarrow> polls s' = polls s"
  by (auto simp: do_set_poll_answer_def Let_def
           dest!: polls_write_logevent polls_supersede polls_send
           split: if_splits sum.splits prod.splits)

lemma polls_set_poll_answer:
  "set_poll_answer G s poll_id m option_ids promise = Inr s' \<Longrightarrow> polls s' = polls s"
  by (auto simp: set_poll_answer_def set_error_def dest!: polls_do_set_poll_answer
           split: if_splits option.splits)

lemma polls_on_set_poll_answer:
  "on_set_poll_answer G s poll_id generation result = Inr s' \<Longrightarrow> polls s' = polls s"
  by (auto simp: on_set_poll_answer_def Let_def binlog_erase_def split: if_splits option.splits)

lemma polls_on_binlog_event:
  "on_binlog_event G s event = Inr s' \<Longrightarrow> polls s' = polls s"
  by (auto simp: on_binlog_event_def binlog_erase_def dest!: polls_do_set_poll_answer
           split: HandlerType.splits if_splits option.splits)

lemma polls_on_binlog_events:
  "on_binlog_events G s events = Inr s' \<Longrightarrow> polls s' = polls s"
proof (induction events arbitrary: s)
  case Nil
  then show ?case by simp
next
  case (Cons event events)
  then show ?case
    by (auto split: sum.splits dest!: polls_on_binlog_event)
qed

lemma close_poll_closed:
  "close_poll G s target = Inr s' \<Longrightarrow> poll_is_closed s poll_id \<Longrightarrow> poll_is_closed s' poll_id"
  by (auto simp: close_poll_def poll_is_closed_def Let_def dest!: polls_save_poll
           split: option.splits if_splits)

lemma create_poll_closed:
  "create_poll s q ts = Inr (s', r) \<Longrightarrow> poll_is_closed s poll_id \<Longrightarrow> poll_is_closed s' poll_id"
  by (auto simp: create_poll_def poll_is_closed_def Let_def split: option.splits if_splits)

lemma step_closed:
  assumes "step G s operation = Inr s'" and "poll_is_closed s poll_id"
    and "keeps_closed G poll_id operation"
  shows "poll_is_closed s' poll_id"
proof (cases operation)
  case (Op_create_poll q ts)
  with assms show ?thesis
    by (cases "create_poll s q ts") (auto dest: create_poll_closed)
next
  case (Op_register_poll target m)
  with assms show ?thesis
    by (auto simp: register_poll_def poll_is_closed_def split: if_splits)
next
  case (Op_unregister_poll target m)
  with assms show ?thesis
    by (auto simp: unregister_poll_def poll_is_closed_def split: if_splits)
next
  case (Op_set_poll_answer target m option_ids promise)
  with assms show ?thesis
    by (auto simp: poll_is_closed_def dest!: polls_set_poll_answer)
next
  case (Op_on_set_poll_answer target generation result)
  with assms show ?thesis
    by (auto simp: poll_is_closed_def dest!: polls_on_set_poll_answer)
next
  case (Op_close_poll target)
  with assms show ?thesis
    by (auto dest: close_poll_closed)
next
  case (Op_on_get_poll poll_id0 ps pr)
  with assms show ?thesis
    by (cases "on_get_poll G s poll_id0 ps pr") (auto dest: on_get_poll_closed)
next
  case (Op_on_binlog_events events)
  with assms show ?thesis
    by (auto simp: poll_is_closed_def dest!: polls_on_binlog_events)
qed

text \<open>
  Claim C6, as amended. Once the \<^verbatim>\<open>is_closed\<close> flag of a poll is true, it stays true through
  every run of operations (create, register, unregister, submit, completion, close, replay and
  reconciliation) in which no reconciliation carries a poll payload for this poll without the
  closed flag. A reconciliation with such a payload sets the flag to the flag of the server.
\<close>

theorem is_closed_kept:
  assumes "run s operations = Inr s'"
    and "polls s poll_id = Some poll" and "is_closed poll"
    and "\<forall>(G, operation) \<in> set operations. keeps_closed G poll_id operation"
  shows "\<exists>poll'. polls s' poll_id = Some poll' \<and> is_closed poll'"
proof -
  have "poll_is_closed s' poll_id"
    if "run s operations = Inr s'" and "poll_is_closed s poll_id"
      and "\<forall>(G, operation) \<in> set operations. keeps_closed G poll_id operation"
    for s
    using that
  proof (induction operations arbitrary: s)
    case Nil
    then show ?case by simp
  next
    case (Cons a operations)
    obtain G operation where a: "a = (G, operation)" by (cases a)
    from Cons.prems a obtain s1 where s1: "step G s operation = Inr s1"
      and rest: "run s1 operations = Inr s'"
      by (auto split: sum.splits)
    from s1 Cons.prems a have "poll_is_closed s1 poll_id"
      by (auto dest: step_closed)
    with rest Cons.prems show ?case
      by (auto intro: Cons.IH)
  qed
  with assms have "poll_is_closed s' poll_id"
    by (simp add: poll_is_closed_def)
  then show ?thesis
    by (simp add: poll_is_closed_def split: option.splits)
qed

lemma get_poll_database_key_7: "get_poll_database_key 7 = ''poll7''"
  by (simp add: get_poll_database_key_def to_string_def to_string_nat.simps)

text \<open>
  The claim as stated fails: poll 7 is closed by \<^verbatim>\<open>close_poll\<close>, then \<^verbatim>\<open>on_get_poll\<close> receives
  a payload of the server without the closed flag, and the poll is open again.
\<close>

theorem is_closed_kept_counterexample:
  "run example_confirmed
     [(example_Global, Op_close_poll 7),
      (example_Global, Op_on_get_poll 7 (Some example_poll_server) (Some example_no_results))]
     = Inr example_reopened
   \<and> close_poll example_Global example_confirmed 7 = Inr example_closed
   \<and> map_option is_closed (polls example_closed 7) = Some True
   \<and> map_option is_closed (polls example_reopened 7) = Some False"
  by (simp add: example_confirmed_def example_confirmed_poll_def PollManager_init_def
        example_Global_def example_closed_def example_reopened_def example_poll_server_def
        example_no_results_def close_poll_def notify_on_poll_update_def is_local_poll_id_def
        save_poll_def sqlite_set_def get_poll_database_key_7 on_get_poll_def get_poll_force_def
        merge_poll_server_def merge_poll_results_def Let_def)

theorem is_closed_kept_witness:
  "polls example_closed 7 = Some (example_confirmed_poll\<lparr>is_closed := True\<rparr>)
   \<and> is_closed (example_confirmed_poll\<lparr>is_closed := True\<rparr>)
   \<and> (\<exists>s'. run example_closed
          [(example_Global,
            Op_on_get_poll 7 (Some example_closed_poll_server) (Some example_min_results)),
           (example_Global, Op_close_poll 7)] = Inr s'
        \<and> (\<exists>poll'. polls s' 7 = Some poll' \<and> is_closed poll'))"
proof -
  have start: "polls example_closed 7 = Some (example_confirmed_poll\<lparr>is_closed := True\<rparr>)"
    by (simp add: example_closed_def)
  obtain s' where run: "run example_closed
          [(example_Global,
            Op_on_get_poll 7 (Some example_closed_poll_server) (Some example_min_results)),
           (example_Global, Op_close_poll 7)] = Inr s'"
    by (simp add: example_confirmed_def example_confirmed_poll_def PollManager_init_def
        example_Global_def example_closed_def example_poll_server_def
        example_closed_poll_server_def example_min_results_def close_poll_def
        notify_on_poll_update_def is_local_poll_id_def
        save_poll_def sqlite_set_def get_poll_database_key_7 on_get_poll_def get_poll_force_def
        merge_poll_server_def merge_poll_results_def Let_def)
  have keeps: "\<forall>(G, operation) \<in> set
          [(example_Global,
            Op_on_get_poll 7 (Some example_closed_poll_server) (Some example_min_results)),
           (example_Global, Op_close_poll 7)]. keeps_closed G 7 operation"
    by (simp add: example_closed_poll_server_def example_Global_def)
  from is_closed_kept [OF run start _ keeps] start run show ?thesis
    by simp
qed

subsection \<open>Reconciliation twice\<close>

lemma fold_map_eq: "fold (\<lambda>r. map (f r)) rs opts = map (fold f rs) opts"
  by (induction rs arbitrary: opts) simp_all

lemma data_apply_poll_result_to [simp]: "data (apply_poll_result_to is_min m r opt) = data opt"
  by (simp add: apply_poll_result_to_def)

lemma text_apply_poll_result_to [simp]: "text (apply_poll_result_to is_min m r opt) = text opt"
  by (simp add: apply_poll_result_to_def)

lemma data_fold_to [simp]: "data (fold (apply_poll_result_to is_min m) rs opt) = data opt"
  by (induction rs arbitrary: opt) simp_all

lemma text_fold_to [simp]: "text (fold (apply_poll_result_to is_min m) rs opt) = text opt"
  by (induction rs arbitrary: opt) simp_all

lemma apply_poll_result_to_other:
  "data opt \<noteq> poll_result_option r \<Longrightarrow> apply_poll_result_to is_min m r opt = opt"
  by (simp add: apply_poll_result_to_def)

lemma apply_poll_result_to_idem:
  "apply_poll_result_to is_min m r (apply_poll_result_to is_min m r opt)
     = apply_poll_result_to is_min m r opt"
  by (simp add: apply_poll_result_to_def)

lemma fold_to_others:
  "\<forall>r \<in> set rs. poll_result_option r \<noteq> data opt
     \<Longrightarrow> fold (apply_poll_result_to is_min m) rs opt = opt"
  by (induction rs arbitrary: opt) (auto simp: apply_poll_result_to_other)

lemma fold_to_distinct:
  assumes "distinct (map poll_result_option rs)" and "r \<in> set rs"
    and "data opt = poll_result_option r"
  shows "fold (apply_poll_result_to is_min m) rs opt = apply_poll_result_to is_min m r opt"
  using assms
proof (induction rs arbitrary: opt)
  case Nil
  then show ?case by simp
next
  case (Cons x rs)
  show ?case
  proof (cases "x = r")
    case True
    with Cons.prems have "\<forall>y \<in> set rs. poll_result_option y \<noteq> data (apply_poll_result_to is_min m r opt)"
      by (auto simp: image_iff)
    with True show ?thesis
      by (simp add: fold_to_others)
  next
    case False
    with Cons.prems have "r \<in> set rs" and "poll_result_option x \<noteq> data opt"
      by auto
    with Cons show ?thesis
      by (simp add: apply_poll_result_to_other)
  qed
qed

lemma apply_poll_result_to_fold_fixed:
  assumes "distinct (map poll_result_option rs)" and "r \<in> set rs"
  shows "apply_poll_result_to is_min m r (fold (apply_poll_result_to is_min m) rs opt)
           = fold (apply_poll_result_to is_min m) rs opt"
proof (cases "data opt = poll_result_option r")
  case True
  with assms show ?thesis
    by (simp add: fold_to_distinct apply_poll_result_to_idem)
next
  case False
  then show ?thesis
    by (simp add: apply_poll_result_to_other)
qed

lemma apply_poll_results_fixed:
  "\<forall>r \<in> set rs. map (apply_poll_result_to is_min m r) opts = opts
     \<Longrightarrow> apply_poll_results is_min m rs opts c = (opts, c)"
  by (induction rs arbitrary: c) (simp_all add: apply_poll_result_eq)

lemma apply_poll_results_twice:
  assumes "distinct (map poll_result_option rs)"
  shows "apply_poll_results is_min m rs (fst (apply_poll_results is_min m rs opts c)) c'
           = (fst (apply_poll_results is_min m rs opts c), c')"
proof (rule apply_poll_results_fixed, rule ballI)
  fix r assume "r \<in> set rs"
  with assms show "map (apply_poll_result_to is_min m r) (fst (apply_poll_results is_min m rs opts c))
      = fst (apply_poll_results is_min m rs opts c)"
    by (simp add: apply_poll_results_fst fold_map_eq apply_poll_result_to_fold_fixed)
qed

lemma Poll_options_update_same [simp]: "poll\<lparr>options := options poll\<rparr> = poll"
  by simp

lemma merge_poll_results_twice:
  assumes "distinct (map poll_result_option (poll_results_results pr))"
  shows "merge_poll_results G (fst (merge_poll_results G poll pr c)) pr c'
           = (fst (merge_poll_results G poll pr c), c')"
  using apply_poll_results_twice [OF assms]
  by (simp add: merge_poll_results_def Let_def split_beta)

lemma merge_options_fst:
  "length os = length answers \<Longrightarrow>
     map text (fst (merge_options os answers c)) = map pollAnswer_text answers
     \<and> map data (fst (merge_options os answers c)) = map pollAnswer_option answers"
  by (induction os answers arbitrary: c rule: list_induct2) (simp_all add: Let_def split_beta)

lemma merge_options_fixed:
  "map text os = map pollAnswer_text answers \<Longrightarrow> map data os = map pollAnswer_option answers
     \<Longrightarrow> merge_options os answers c = (os, c)"
proof (induction os arbitrary: answers c)
  case Nil
  then show ?case by simp
next
  case (Cons opt os)
  then obtain answer rest where "answers = answer # rest" by (cases answers) auto
  with Cons show ?case by simp
qed

lemma get_poll_options_text_data [simp]:
  "map text (get_poll_options answers) = map pollAnswer_text answers"
  "map data (get_poll_options answers) = map pollAnswer_option answers"
  by (simp_all add: get_poll_options_def comp_def)

lemma merge_poll_server_fst:
  "question (fst (merge_poll_server G poll ps c)) = poll_server_question ps"
  "map text (options (fst (merge_poll_server G poll ps c)))
     = map pollAnswer_text (poll_server_answers ps)"
  "map data (options (fst (merge_poll_server G poll ps c)))
     = map pollAnswer_option (poll_server_answers ps)"
  by (auto simp: merge_poll_server_def Let_def split_beta merge_options_fst)

lemma merge_poll_server_fixed:
  assumes "question poll = poll_server_question ps"
    and "map text (options poll) = map pollAnswer_text (poll_server_answers ps)"
    and "map data (options poll) = map pollAnswer_option (poll_server_answers ps)"
    and "is_closed poll \<longleftrightarrow> poll_server_flags ps AND CLOSED_MASK G \<noteq> 0"
  shows "merge_poll_server G poll ps c = (poll, c)"
proof -
  from assms(2) have "length (options poll) = length (poll_server_answers ps)"
    by (rule map_eq_imp_length_eq)
  with assms show ?thesis
    by (simp add: merge_poll_server_def Let_def merge_options_fixed)
qed

lemma merge_poll_results_fst:
  "question (fst (merge_poll_results G poll pr c)) = question poll"
  "map text (options (fst (merge_poll_results G poll pr c))) = map text (options poll)"
  "map data (options (fst (merge_poll_results G poll pr c))) = map data (options poll)"
  by (simp_all add: merge_poll_results_def Let_def split_beta apply_poll_results_fst
        fold_map_eq comp_def)

lemma merge_poll_server_twice:
  "merge_poll_server G
     (fst (merge_poll_results G (fst (merge_poll_server G poll ps c0)) pr c1)) ps c
   = (fst (merge_poll_results G (fst (merge_poll_server G poll ps c0)) pr c1), c)"
  by (rule merge_poll_server_fixed)
     (simp_all add: merge_poll_results_fst merge_poll_server_fst is_closed_merge_poll_results
        is_closed_merge_poll_server)

lemma get_poll_force_None_again:
  "get_poll_force G s poll_id = Inr (s1, None) \<Longrightarrow> get_poll_force G s1 poll_id = Inr (s1, None)"
  by (auto simp: get_poll_force_def on_load_poll_from_database_def Let_def have_poll_def
                 get_poll_def
           split: option.splits if_splits sum.splits)

lemma on_get_poll_None_again:
  assumes "on_get_poll G s poll_id0 ps pr = Inr (s1, None)"
  shows "on_get_poll G s1 poll_id0 ps pr = Inr (s1, None)"
  using assms
  by (auto simp: on_get_poll_def Let_def dest: get_poll_force_None_again
           split: option.splits if_splits sum.splits prod.splits)

lemma on_get_poll_Some:
  assumes "on_get_poll G s poll_id0 ps pr = Inr (s1, Some poll_id)"
  shows "\<exists>results poll0 c.
           pr = Some results
           \<and> poll_id = (case ps of None \<Rightarrow> poll_id0
                        | Some payload \<Rightarrow> if \<not> PollId_is_valid G poll_id0
                                          then poll_server_id payload else poll_id0)
           \<and> PollId_is_valid G poll_id \<and> \<not> is_local_poll_id poll_id
           \<and> (case ps of None \<Rightarrow> True | Some payload \<Rightarrow> poll_server_id payload = poll_id)
           \<and> polls s1 poll_id
                = Some (fst (merge_poll_results G
                               (case ps of None \<Rightarrow> poll0
                                | Some payload \<Rightarrow> fst (merge_poll_server G poll0 payload False))
                               results c))"
  using assms
  by (auto simp: on_get_poll_def Let_def dest!: polls_save_poll
           split: option.splits if_splits sum.splits prod.splits)
     (metis fst_conv)+

lemma PollManager_polls_update_same:
  "polls s poll_id = Some poll \<Longrightarrow> s\<lparr>polls := (polls s)(poll_id \<mapsto> poll)\<rparr> = s"
  by (simp add: fun_upd_idem)

lemma on_get_poll_fixed:
  assumes "poll_id = (case ps of None \<Rightarrow> poll_id0
                        | Some payload \<Rightarrow> if \<not> PollId_is_valid G poll_id0
                                          then poll_server_id payload else poll_id0)"
    and "PollId_is_valid G poll_id" and "\<not> is_local_poll_id poll_id"
    and "case ps of None \<Rightarrow> True | Some payload \<Rightarrow> poll_server_id payload = poll_id"
    and "polls s1 poll_id = Some poll2"
    and "case ps of None \<Rightarrow> True
         | Some payload \<Rightarrow> merge_poll_server G poll2 payload False = (poll2, False)"
    and "merge_poll_results G poll2 results False = (poll2, False)"
  shows "on_get_poll G s1 poll_id0 ps (Some results) = Inr (s1, Some poll_id)"
proof (cases ps)
  case None
  with assms show ?thesis
    by (simp add: on_get_poll_def get_poll_force_def PollManager_polls_update_same)
next
  case (Some payload)
  with assms have id: "(if \<not> PollId_is_valid G poll_id0 then poll_server_id payload else poll_id0)
      = poll_id"
    by simp
  from Some assms show ?thesis
    by (simp add: on_get_poll_def id get_poll_force_def PollManager_polls_update_same
          del: if_not_P)
qed

text \<open>
  Claim C5, as amended. When the tally entries of the results have pairwise distinct option
  keys, applying \<^verbatim>\<open>on_get_poll\<close> a second time with the same poll payload and the same results
  returns the same poll id and leaves the whole state of the manager as the first application
  left it: no member of the stored poll changes, no content update is sent and nothing is
  written to the database.
\<close>

theorem on_get_poll_idempotent:
  assumes "on_get_poll G s poll_id0 ps pr = Inr (s1, r)"
    and "case pr of None \<Rightarrow> True
         | Some results \<Rightarrow> distinct (map poll_result_option (poll_results_results results))"
  shows "on_get_poll G s1 poll_id0 ps pr = Inr (s1, r)"
proof (cases r)
  case None
  with assms(1) show ?thesis
    by (simp add: on_get_poll_None_again)
next
  case (Some poll_id)
  with assms(1) obtain results poll0 c where pr: "pr = Some results"
    and id: "poll_id = (case ps of None \<Rightarrow> poll_id0
                        | Some payload \<Rightarrow> if \<not> PollId_is_valid G poll_id0
                                          then poll_server_id payload else poll_id0)"
    and valid: "PollId_is_valid G poll_id" "\<not> is_local_poll_id poll_id"
    and same: "case ps of None \<Rightarrow> True | Some payload \<Rightarrow> poll_server_id payload = poll_id"
    and poll: "polls s1 poll_id
                = Some (fst (merge_poll_results G
                               (case ps of None \<Rightarrow> poll0
                                | Some payload \<Rightarrow> fst (merge_poll_server G poll0 payload False))
                               results c))"
    using on_get_poll_Some [of G s poll_id0 ps pr s1 poll_id] by blast
  from assms(2) pr have distinct: "distinct (map poll_result_option (poll_results_results results))"
    by simp
  have server: "case ps of None \<Rightarrow> True
         | Some payload \<Rightarrow>
             merge_poll_server G
               (fst (merge_poll_results G
                               (case ps of None \<Rightarrow> poll0
                                | Some payload \<Rightarrow> fst (merge_poll_server G poll0 payload False))
                               results c)) payload False
             = (fst (merge_poll_results G
                               (case ps of None \<Rightarrow> poll0
                                | Some payload \<Rightarrow> fst (merge_poll_server G poll0 payload False))
                               results c), False)"
    by (cases ps) (simp_all add: merge_poll_server_twice)
  from on_get_poll_fixed [OF id valid same poll server merge_poll_results_twice [OF distinct]]
  show ?thesis
    by (simp add: pr Some)
qed

text \<open>
  The claim as stated fails for results with two tally entries for one key and different
  counts: the first entry sets the count to 6 and the second sets it back to 5, so every
  application sets \<^verbatim>\<open>is_changed\<close>, and the second application notifies and writes again.
\<close>

theorem on_get_poll_idempotent_counterexample:
  "on_get_poll example_Global example_confirmed 7 None (Some example_dup_results)
     = Inr (example_saved_once, Some 7)
   \<and> on_get_poll example_Global example_saved_once 7 None (Some example_dup_results)
     = Inr (example_saved_twice, Some 7)
   \<and> content_updates example_saved_once = [FullMessageId 3 4]
   \<and> content_updates example_saved_twice = [FullMessageId 3 4, FullMessageId 3 4]
   \<and> sqlite_pmc example_saved_once = [(''poll7'', ''Q'')]
   \<and> sqlite_pmc example_saved_twice = [(''poll7'', ''Q''), (''poll7'', ''Q'')]"
  by (simp add: example_confirmed_def example_confirmed_poll_def PollManager_init_def
        example_Global_def example_saved_once_def example_saved_twice_def
        example_dup_results_def notify_on_poll_update_def is_local_poll_id_def
        save_poll_def sqlite_set_def get_poll_database_key_7 on_get_poll_def get_poll_force_def
        merge_poll_results_def Let_def)

theorem on_get_poll_idempotent_witness:
  "distinct (map poll_result_option (poll_results_results example_min_results))
   \<and> on_get_poll example_Global example_confirmed 7 None (Some example_min_results)
       = Inr (example_tallied, Some 7)
   \<and> on_get_poll example_Global example_tallied 7 None (Some example_min_results)
       = Inr (example_tallied, Some 7)"
proof -
  have first: "on_get_poll example_Global example_confirmed 7 None (Some example_min_results)
       = Inr (example_tallied, Some 7)"
    by (simp add: example_confirmed_def example_confirmed_poll_def PollManager_init_def
        example_Global_def example_tallied_def
        example_min_results_def notify_on_poll_update_def is_local_poll_id_def
        save_poll_def sqlite_set_def get_poll_database_key_7 on_get_poll_def get_poll_force_def
        merge_poll_results_def Let_def)
  have keys: "distinct (map poll_result_option (poll_results_results example_min_results))"
    by (simp add: example_min_results_def)
  from on_get_poll_idempotent [OF first] first keys show ?thesis
    by simp
qed

subsection \<open>Supersession and coalescing\<close>

lemma fold_set_value:
  "fold (\<lambda>p s'. set_value s' p) ps s
     = s\<lparr>promise_results := promise_results s @ map (\<lambda>p. (p, Ok)) ps\<rparr>"
  by (induction ps arbitrary: s) (simp_all add: set_value_def)

lemma fold_set_result:
  "fold (\<lambda>p s'. case result of Ok \<Rightarrow> set_value s' p
                  | Error c m \<Rightarrow> set_error s' p (Error c m)) ps s
     = s\<lparr>promise_results := promise_results s @ map (\<lambda>p. (p, result)) ps\<rparr>"
  by (induction ps arbitrary: s) (simp_all add: set_value_def set_error_def split: Result.splits)

text \<open>The state after the supersession, for each of the ways the log entry is written.\<close>

lemma supersession_state:
  assumes pa: "pending_answers s poll_id = Some pending_answer"
    and waiters: "pa_promises pending_answer \<noteq> []"
    and differ: "pa_options pending_answer \<noteq> opts"
    and query: "pa_query_ref pending_answer = Some q"
    and ids: "logevent_id = 0 \<or> pa_logevent_id pending_answer = 0"
    and entry: "logevent_id = 0 \<and> use_message_db G
                  \<longrightarrow> (pa_generation pending_answer = 0 \<longleftrightarrow> pa_logevent_id pending_answer = 0)"
  shows "\<exists>s' pa' query.
           do_set_poll_answer G s poll_id m opts logevent_id promise = Inr s'
           \<and> cancelled_queries s' = cancelled_queries s @ [q]
           \<and> promise_results s'
               = promise_results s @ map (\<lambda>p. (p, Ok)) (pa_promises pending_answer)
           \<and> pending_answers s' = (pending_answers s)(poll_id \<mapsto> pa')
           \<and> pa_options pa' = opts \<and> pa_promises pa' = [promise]
           \<and> pa_generation pa' = current_generation s + 1
           \<and> current_generation s' = current_generation s + 1
           \<and> sent_queries s' = sent_queries s @ [query]
           \<and> query_poll_id query = poll_id \<and> query_generation query = current_generation s + 1
           \<and> query_full_message_id query = m \<and> query_options query = opts"
proof (cases "logevent_id = 0 \<and> use_message_db G")
  case False
  with assms show ?thesis
    by (auto simp: do_set_poll_answer_def write_logevent_def supersede_def cancel_query_def
          fold_set_value notify_on_poll_update_def SetPollAnswerQuery_send_def Let_def
          split: option.splits)
next
  case True
  show ?thesis
  proof (cases "pa_generation pending_answer = 0")
    case zero: True
    with True assms show ?thesis
      by (auto simp: do_set_poll_answer_def write_logevent_def binlog_add_def supersede_def
            cancel_query_def fold_set_value notify_on_poll_update_def
            SetPollAnswerQuery_send_def Let_def
            split: option.splits)
  next
    case nonzero: False
    with True assms show ?thesis
      by (auto simp: do_set_poll_answer_def write_logevent_def binlog_rewrite_def supersede_def
            cancel_query_def fold_set_value notify_on_poll_update_def
            SetPollAnswerQuery_send_def Let_def
            split: option.splits)
  qed
qed

lemma completion_of_current_generation:
  assumes "pending_answers s poll_id = Some pa" and "pa_promises pa \<noteq> []"
    and "pa_generation pa = generation" and "\<not> (close_flag G \<and> is_error result)"
  shows "\<exists>s'. on_set_poll_answer G s poll_id generation result = Inr s'
           \<and> promise_results s' = promise_results s @ map (\<lambda>p. (p, result)) (pa_promises pa)
           \<and> pending_answers s' = (pending_answers s)(poll_id := None)
           \<and> binlog s' = (if pa_logevent_id pa \<noteq> 0
                           then binlog s @ [BinlogErase (pa_logevent_id pa)] else binlog s)
           \<and> sent_queries s' = sent_queries s"
  using assms
  by (auto simp: on_set_poll_answer_def fold_set_result binlog_erase_def Let_def)

text \<open>
  Why the counter is assumed below its maximum: \<^verbatim>\<open>++current_generation_\<close> wraps around to 0
  there.
\<close>

lemma generation_wraps:
  "current_generation s = - 1 \<Longrightarrow> pending_answers s poll_id = None
     \<Longrightarrow> \<not> use_message_db G
     \<Longrightarrow> \<exists>s' pa'. do_set_poll_answer G s poll_id m opts 0 promise = Inr s'
           \<and> pending_answers s' poll_id = Some pa' \<and> pa_generation pa' = 0"
  by (simp add: do_set_poll_answer_def PendingAnswer_default_def write_logevent_def
        supersede_def SetPollAnswerQuery_send_def Let_def)

lemma example_voting_reached:
  "set_poll_answer example_Global example_confirmed 7 (FullMessageId 3 4) [0] (Promise 1)
     = Inr example_voting"
  by (simp add: example_confirmed_def example_confirmed_poll_def PollManager_init_def
        example_Global_def example_voting_def set_poll_answer_def get_poll_def
        is_local_poll_id_def do_set_poll_answer_def PendingAnswer_default_def
        write_logevent_def binlog_add_def supersede_def notify_on_poll_update_def
        SetPollAnswerQuery_send_def Let_def)

lemma example_revoting_reached:
  "set_poll_answer example_Global example_voting 7 (FullMessageId 3 4) [1] (Promise 2)
     = Inr example_revoting"
  by (simp add: example_confirmed_def example_confirmed_poll_def PollManager_init_def
        example_Global_def example_voting_def example_revoting_def set_poll_answer_def
        get_poll_def is_local_poll_id_def do_set_poll_answer_def
        write_logevent_def binlog_rewrite_def supersede_def cancel_query_def set_value_def
        notify_on_poll_update_def SetPollAnswerQuery_send_def Let_def)

text \<open>
  Claim C2, as amended. When the poll has a pending answer with the same options and at least
  one promise, \<^verbatim>\<open>do_set_poll_answer\<close> returns the state it was given with the new promise appended
  to the promises of the pending answer and nothing else changed: the binlog, the generation
  counter, the cancelled queries and the sent queries are as before. When the result of the one
  query arrives, the handler sets it on all promises, the old ones and the new one, in one
  step, unless the process is closing and the result is an error.
\<close>

theorem do_set_poll_answer_coalesces:
  assumes "pending_answers s poll_id = Some pending_answer"
    and "pa_options pending_answer = opts"
    and "pa_promises pending_answer \<noteq> []"
  shows "do_set_poll_answer G s poll_id m opts logevent_id promise
           = Inr (s\<lparr>pending_answers := (pending_answers s)
                     (poll_id \<mapsto> pending_answer
                        \<lparr>pa_promises := pa_promises pending_answer @ [promise]\<rparr>)\<rparr>)
         \<and> (\<forall>result. \<not> (close_flag G \<and> is_error result) \<longrightarrow>
               (\<exists>s''. on_set_poll_answer G
                        (s\<lparr>pending_answers := (pending_answers s)
                             (poll_id \<mapsto> pending_answer
                                \<lparr>pa_promises := pa_promises pending_answer @ [promise]\<rparr>)\<rparr>)
                        poll_id (pa_generation pending_answer) result = Inr s''
                  \<and> promise_results s''
                      = promise_results s
                        @ map (\<lambda>p. (p, result)) (pa_promises pending_answer @ [promise])
                  \<and> sent_queries s'' = sent_queries s
                  \<and> pending_answers s'' poll_id = None))"
proof -
  have first: "do_set_poll_answer G s poll_id m opts logevent_id promise
           = Inr (s\<lparr>pending_answers := (pending_answers s)
                     (poll_id \<mapsto> pending_answer
                        \<lparr>pa_promises := pa_promises pending_answer @ [promise]\<rparr>)\<rparr>)"
    using assms by (simp add: do_set_poll_answer_def)
  have second: "\<exists>s''. on_set_poll_answer G
                        (s\<lparr>pending_answers := (pending_answers s)
                             (poll_id \<mapsto> pending_answer
                                \<lparr>pa_promises := pa_promises pending_answer @ [promise]\<rparr>)\<rparr>)
                        poll_id (pa_generation pending_answer) result = Inr s''
                  \<and> promise_results s''
                      = promise_results s
                        @ map (\<lambda>p. (p, result)) (pa_promises pending_answer @ [promise])
                  \<and> sent_queries s'' = sent_queries s
                  \<and> pending_answers s'' poll_id = None"
    if "\<not> (close_flag G \<and> is_error result)" for result
    using completion_of_current_generation
            [of "s\<lparr>pending_answers := (pending_answers s)
                             (poll_id \<mapsto> pending_answer
                                \<lparr>pa_promises := pa_promises pending_answer @ [promise]\<rparr>)\<rparr>"
                poll_id "pending_answer\<lparr>pa_promises := pa_promises pending_answer @ [promise]\<rparr>"
                "pa_generation pending_answer" G result] that
    by auto
  from first second show ?thesis by blast
qed

theorem do_set_poll_answer_coalesces_witness:
  "pending_answers example_voting 7
     = Some \<lparr>pa_options = [''0''], pa_promises = [Promise 1], pa_generation = 1,
             pa_logevent_id = 1, pa_query_ref = Some 0\<rparr>
   \<and> do_set_poll_answer example_Global example_voting 7 (FullMessageId 3 4) [''0''] 0 (Promise 2)
       = Inr example_coalesced
   \<and> (\<exists>s''. on_set_poll_answer example_Global example_coalesced 7 1 Ok = Inr s''
         \<and> promise_results s'' = [(Promise 1, Ok), (Promise 2, Ok)]
         \<and> sent_queries s'' = sent_queries example_voting
         \<and> pending_answers s'' 7 = None)"
proof -
  have same: "example_voting\<lparr>pending_answers := (pending_answers example_voting)
                (7 \<mapsto> \<lparr>pa_options = [''0''], pa_promises = [Promise 1], pa_generation = 1,
                         pa_logevent_id = 1, pa_query_ref = Some 0\<rparr>
                        \<lparr>pa_promises := [Promise 1] @ [Promise 2]\<rparr>)\<rparr> = example_coalesced"
    by (simp add: example_coalesced_def example_voting_def)
  from do_set_poll_answer_coalesces
         [of example_voting 7
             "\<lparr>pa_options = [''0''], pa_promises = [Promise 1], pa_generation = 1,
               pa_logevent_id = 1, pa_query_ref = Some 0\<rparr>"
             "[''0'']" example_Global "FullMessageId 3 4" 0 "Promise 2"]
  have "do_set_poll_answer example_Global example_voting 7 (FullMessageId 3 4) [''0''] 0
          (Promise 2) = Inr example_coalesced
        \<and> (\<forall>result. \<not> (close_flag example_Global \<and> is_error result) \<longrightarrow>
               (\<exists>s''. on_set_poll_answer example_Global example_coalesced 7 1 result = Inr s''
                  \<and> promise_results s''
                      = promise_results example_voting
                        @ map (\<lambda>p. (p, result)) [Promise 1, Promise 2]
                  \<and> sent_queries s'' = sent_queries example_voting
                  \<and> pending_answers s'' 7 = None))"
    using same by (simp add: example_voting_def)
  then show ?thesis
    by (auto simp: example_voting_def example_confirmed_def PollManager_init_def)
qed

text \<open>
  The claim as stated fails while the process is closing: the error result of the query is
  dropped by the handler, and neither promise is set.
\<close>

theorem do_set_poll_answer_coalesces_counterexample:
  "do_set_poll_answer example_closing_Global example_voting 7 (FullMessageId 3 4) [''0''] 0
     (Promise 2) = Inr example_coalesced
   \<and> pending_answers example_coalesced 7
       = Some \<lparr>pa_options = [''0''], pa_promises = [Promise 1, Promise 2], pa_generation = 1,
               pa_logevent_id = 1, pa_query_ref = Some 0\<rparr>
   \<and> on_set_poll_answer example_closing_Global example_coalesced 7 1 (Error 500 ''Failed'')
       = Inr example_coalesced
   \<and> promise_results example_coalesced = []"
  by (simp add: example_confirmed_def example_confirmed_poll_def PollManager_init_def
        example_Global_def example_closing_Global_def example_voting_def example_coalesced_def
        do_set_poll_answer_def on_set_poll_answer_def)

subsection \<open>Replay of the log\<close>

lemma replay_of_event:
  assumes "use_message_db G" and "event_type event = SetPollAnswer" and "event_id event \<noteq> 0"
    and "log_event_parse_SetPollAnswer G (event_data event) = Some log_event"
    and "pending_answers s (le_poll_id log_event) = None"
  shows "\<exists>s' pa query.
           on_binlog_event G s event = Inr s'
           \<and> binlog s' = binlog s \<and> binlog_next_id s' = binlog_next_id s
           \<and> promise_results s' = promise_results s
           \<and> cancelled_queries s' = cancelled_queries s
           \<and> pending_answers s' = (pending_answers s)(le_poll_id log_event \<mapsto> pa)
           \<and> pa_logevent_id pa = event_id event \<and> pa_promises pa = [Auto]
           \<and> pa_options pa = le_options log_event
           \<and> sent_queries s' = sent_queries s @ [query]
           \<and> query_poll_id query = le_poll_id log_event
           \<and> query_full_message_id query = le_full_message_id log_event
           \<and> query_options query = le_options log_event"
  using assms
  by (auto simp: on_binlog_event_def do_set_poll_answer_def PendingAnswer_default_def
        write_logevent_def supersede_def notify_on_poll_update_def SetPollAnswerQuery_send_def
        Let_def split: option.splits)

lemma replay_of_events:
  assumes "use_message_db G"
  shows "\<forall>event \<in> set events. event_type event = SetPollAnswer \<and> event_id event \<noteq> 0
            \<and> (\<exists>poll_id. event_poll_id G event = Some poll_id \<and> pending_answers s poll_id = None)
     \<Longrightarrow> distinct (map (event_poll_id G) events)
     \<Longrightarrow> \<exists>s' queries.
           on_binlog_events G s events = Inr s'
           \<and> binlog s' = binlog s \<and> binlog_next_id s' = binlog_next_id s
           \<and> promise_results s' = promise_results s
           \<and> cancelled_queries s' = cancelled_queries s
           \<and> sent_queries s' = sent_queries s @ queries
           \<and> list_all2 (replayed_by G) events queries
           \<and> (\<forall>event \<in> set events. replayed_into G event s')
           \<and> (\<forall>poll_id. Some poll_id \<notin> event_poll_id G ` set events
                  \<longrightarrow> pending_answers s' poll_id = pending_answers s poll_id)"
proof (induction events arbitrary: s)
  case Nil
  then show ?case by simp
next
  case (Cons event events)
  from Cons.prems(1) obtain log_event where
    parse: "log_event_parse_SetPollAnswer G (event_data event) = Some log_event"
    and fresh: "pending_answers s (le_poll_id log_event) = None"
    and type: "event_type event = SetPollAnswer" and id: "event_id event \<noteq> 0"
    by (auto simp: event_poll_id_def)
  from replay_of_event [OF assms type id parse fresh]
  obtain s1 pa query where
    first: "on_binlog_event G s event = Inr s1"
    and log: "binlog s1 = binlog s" "binlog_next_id s1 = binlog_next_id s"
      "promise_results s1 = promise_results s" "cancelled_queries s1 = cancelled_queries s"
    and pending: "pending_answers s1 = (pending_answers s)(le_poll_id log_event \<mapsto> pa)"
    and pa: "pa_logevent_id pa = event_id event" "pa_promises pa = [Auto]"
      "pa_options pa = le_options log_event"
    and sent: "sent_queries s1 = sent_queries s @ [query]"
    and query: "query_poll_id query = le_poll_id log_event"
      "query_full_message_id query = le_full_message_id log_event"
      "query_options query = le_options log_event"
    by blast
  from parse have here: "event_poll_id G event = Some (le_poll_id log_event)"
    by (simp add: event_poll_id_def)
  from Cons.prems(2) here have others: "Some (le_poll_id log_event) \<notin> event_poll_id G ` set events"
    and distinct: "distinct (map (event_poll_id G) events)"
    by auto
  have rest_fresh: "\<forall>e \<in> set events. event_type e = SetPollAnswer \<and> event_id e \<noteq> 0
            \<and> (\<exists>poll_id. event_poll_id G e = Some poll_id \<and> pending_answers s1 poll_id = None)"
  proof
    fix e assume e: "e \<in> set events"
    with Cons.prems(1) obtain poll_id where
      "event_type e = SetPollAnswer" "event_id e \<noteq> 0" "event_poll_id G e = Some poll_id"
      "pending_answers s poll_id = None"
      by auto
    moreover from this e others have "poll_id \<noteq> le_poll_id log_event"
      by (metis image_eqI)
    ultimately show "event_type e = SetPollAnswer \<and> event_id e \<noteq> 0
            \<and> (\<exists>poll_id. event_poll_id G e = Some poll_id \<and> pending_answers s1 poll_id = None)"
      using pending by auto
  qed
  from Cons.IH [OF rest_fresh distinct]
  obtain s' queries where
    rest: "on_binlog_events G s1 events = Inr s'"
    and log': "binlog s' = binlog s1" "binlog_next_id s' = binlog_next_id s1"
      "promise_results s' = promise_results s1" "cancelled_queries s' = cancelled_queries s1"
    and sent': "sent_queries s' = sent_queries s1 @ queries"
    and all2: "list_all2 (replayed_by G) events queries"
    and into: "\<forall>e \<in> set events. replayed_into G e s'"
    and frame: "\<forall>poll_id. Some poll_id \<notin> event_poll_id G ` set events
                  \<longrightarrow> pending_answers s' poll_id = pending_answers s1 poll_id"
    by blast
  from frame others pending have kept: "pending_answers s' (le_poll_id log_event) = Some pa"
    by simp
  with parse pa have into_first: "replayed_into G event s'"
    by (simp add: replayed_into_def)
  from parse query have by_first: "replayed_by G event query"
    by (simp add: replayed_by_def)
  have frame': "\<forall>poll_id. Some poll_id \<notin> event_poll_id G ` set (event # events)
                  \<longrightarrow> pending_answers s' poll_id = pending_answers s poll_id"
    using frame pending here by auto
  from first rest have "on_binlog_events G s (event # events) = Inr s'"
    by simp
  moreover from sent sent' have "sent_queries s' = sent_queries s @ (query # queries)"
    by simp
  moreover from by_first all2 have "list_all2 (replayed_by G) (event # events) (query # queries)"
    by simp
  moreover from into_first into have "\<forall>e \<in> set (event # events). replayed_into G e s'"
    by simp
  ultimately show ?case
    using log log' frame' by metis
qed

text \<open>
  Claim C4, as amended. With the message database in use, let \<^verbatim>\<open>on_binlog_events\<close> replay log
  events of the vote kind that decode, have ids other than 0, and belong to pairwise distinct
  polls without a pending answer (the state at startup, with one log entry for a poll). Then
  the replay returns, the binlog is not touched at all (no entry is added and none is
  rewritten or erased), exactly one query is sent for each event, in order, with the poll,
  message and options of the event, and the pending answer of each event carries the id of
  the event, its options and the promise \<^verbatim>\<open>Auto()\<close> alone.
\<close>

theorem on_binlog_events_replay:
  assumes "use_message_db G"
    and "\<forall>event \<in> set events. event_type event = SetPollAnswer \<and> event_id event \<noteq> 0
            \<and> (\<exists>poll_id. event_poll_id G event = Some poll_id \<and> pending_answers s poll_id = None)"
    and "distinct (map (event_poll_id G) events)"
  shows "\<exists>s' queries.
           on_binlog_events G s events = Inr s'
           \<and> binlog s' = binlog s
           \<and> sent_queries s' = sent_queries s @ queries
           \<and> list_all2 (replayed_by G) events queries
           \<and> (\<forall>event \<in> set events. replayed_into G event s')"
  using replay_of_events [OF assms] by blast

text \<open>
  The claim as stated says that the entry is rewritten in place. It is not: the replay of the
  event of id 1 sends its query and records the id, and the journal of the binlog stays
  empty.
\<close>

theorem on_binlog_events_replay_counterexample:
  "on_binlog_events example_replay_Global example_restarted [example_event] = Inr example_replayed
   \<and> binlog example_restarted = []
   \<and> binlog example_replayed = []"
  by (simp add: example_confirmed_def example_confirmed_poll_def PollManager_init_def
        example_Global_def example_replay_Global_def example_event_def example_restarted_def
        example_replayed_def on_binlog_event_def do_set_poll_answer_def
        PendingAnswer_default_def write_logevent_def supersede_def notify_on_poll_update_def
        SetPollAnswerQuery_send_def Let_def)

theorem on_binlog_events_replay_witness:
  "use_message_db example_replay_Global
   \<and> event_poll_id example_replay_Global example_event = Some 7
   \<and> pending_answers example_restarted 7 = None
   \<and> (\<exists>s' queries.
         on_binlog_events example_replay_Global example_restarted [example_event] = Inr s'
         \<and> binlog s' = binlog example_restarted
         \<and> sent_queries s' = sent_queries example_restarted @ queries
         \<and> list_all2 (replayed_by example_replay_Global) [example_event] queries
         \<and> replayed_into example_replay_Global example_event s')"
  using on_binlog_events_replay [of example_replay_Global "[example_event]" example_restarted]
  by (simp add: example_replay_Global_def example_Global_def example_event_def
        event_poll_id_def example_restarted_def example_confirmed_def PollManager_init_def)

subsection \<open>Minimal results in the reconciliation\<close>

lemma save_poll_Inr:
  "\<not> is_local_poll_id poll_id \<Longrightarrow> \<exists>s'. save_poll G s poll poll_id = Inr s' \<and> polls s' = polls s"
  by (simp add: save_poll_def sqlite_set_def)

lemma on_get_poll_registered:
  assumes "polls s poll_id = Some poll"
    and "PollId_is_valid G poll_id" and "\<not> is_local_poll_id poll_id"
    and "case ps of None \<Rightarrow> True | Some payload \<Rightarrow> poll_server_id payload = poll_id"
  shows "on_get_poll G s poll_id ps (Some pr)
     = (case merge_poll_results G
               (case ps of None \<Rightarrow> poll
                | Some payload \<Rightarrow> fst (merge_poll_server G poll payload False))
               pr
               (case ps of None \<Rightarrow> False
                | Some payload \<Rightarrow> snd (merge_poll_server G poll payload False)) of
          (poll2, is_changed) \<Rightarrow>
            if is_changed then
              (case save_poll G
                      (notify_on_poll_update (s\<lparr>polls := (polls s)(poll_id \<mapsto> poll2)\<rparr>) poll_id)
                      poll2 poll_id of
                 Inl e \<Rightarrow> Inl e
               | Inr s3 \<Rightarrow> Inr (s3, Some poll_id))
            else Inr (s\<lparr>polls := (polls s)(poll_id \<mapsto> poll2)\<rparr>, Some poll_id))"
  using assms
  by (cases ps) (simp_all add: on_get_poll_def get_poll_force_def Let_def split_beta)

lemma on_get_poll_registered_stores:
  assumes "polls s poll_id = Some poll"
    and "PollId_is_valid G poll_id" and "\<not> is_local_poll_id poll_id"
    and "case ps of None \<Rightarrow> True | Some payload \<Rightarrow> poll_server_id payload = poll_id"
  shows "\<exists>s'. on_get_poll G s poll_id ps (Some pr) = Inr (s', Some poll_id)
           \<and> polls s' poll_id
               = Some (fst (merge_poll_results G
                              (case ps of None \<Rightarrow> poll
                               | Some payload \<Rightarrow> fst (merge_poll_server G poll payload False))
                              pr
                              (case ps of None \<Rightarrow> False
                               | Some payload \<Rightarrow> snd (merge_poll_server G poll payload False))))"
proof -
  obtain poll2 is_changed where merge: "merge_poll_results G
               (case ps of None \<Rightarrow> poll
                | Some payload \<Rightarrow> fst (merge_poll_server G poll payload False))
               pr
               (case ps of None \<Rightarrow> False
                | Some payload \<Rightarrow> snd (merge_poll_server G poll payload False))
             = (poll2, is_changed)"
    by (cases "merge_poll_results G
               (case ps of None \<Rightarrow> poll
                | Some payload \<Rightarrow> fst (merge_poll_server G poll payload False))
               pr
               (case ps of None \<Rightarrow> False
                | Some payload \<Rightarrow> snd (merge_poll_server G poll payload False))")
  from save_poll_Inr [OF assms(3)] obtain s3 where
    "save_poll G (notify_on_poll_update (s\<lparr>polls := (polls s)(poll_id \<mapsto> poll2)\<rparr>) poll_id)
       poll2 poll_id = Inr s3"
    "polls s3 = polls (notify_on_poll_update (s\<lparr>polls := (polls s)(poll_id \<mapsto> poll2)\<rparr>) poll_id)"
    by blast
  with merge show ?thesis
    by (simp add: on_get_poll_registered [OF assms])
qed

lemma apply_poll_result_unmatched:
  "\<forall>opt \<in> set opts. data opt \<noteq> poll_result_option r
     \<Longrightarrow> apply_poll_result is_min m r opts c = (opts, c)"
  by (simp add: apply_poll_result_eq apply_poll_result_to_def map_idI)

lemma apply_poll_results_filter:
  "data ` set opts = keys \<Longrightarrow>
     apply_poll_results is_min m (filter (\<lambda>r. poll_result_option r \<in> keys) rs) opts c
       = apply_poll_results is_min m rs opts c"
proof (induction rs arbitrary: opts c)
  case Nil
  then show ?case by simp
next
  case (Cons r rs)
  show ?case
  proof (cases "poll_result_option r \<in> keys")
    case True
    have "data ` set (map (apply_poll_result_to is_min m r) opts) = keys"
      using Cons.prems by (simp add: image_image)
    with True Cons.IH show ?thesis
      by (simp add: apply_poll_result_eq)
  next
    case False
    with Cons.prems have "\<forall>opt \<in> set opts. data opt \<noteq> poll_result_option r"
      by (metis image_eqI)
    with False Cons show ?thesis
      by (simp add: apply_poll_result_unmatched)
  qed
qed

lemma merge_poll_results_filter:
  "merge_poll_results G poll
     (pr\<lparr>poll_results_results :=
          filter (\<lambda>r. poll_result_option r \<in> data ` set (options poll)) (poll_results_results pr)\<rparr>)
     c
   = merge_poll_results G poll pr c"
  by (simp add: merge_poll_results_def Let_def split_beta apply_poll_results_filter)

text \<open>
  Claim C9. Let \<^verbatim>\<open>on_get_poll\<close> be called for a poll of the registry with results that are flagged
  as minimal, with or without a poll payload for that poll, and let the base be the stored poll
  after the merge of the payload (the stored poll itself when there is no payload). Then the
  call returns, and in the poll it stores the options are those of the base, in place, each
  with the \<^verbatim>\<open>is_chosen\<close> it has in the base; the \<^verbatim>\<open>voter_count\<close> of an option is the \<^verbatim>\<open>voters_\<close> of
  the tally entry with the key of the option (of the last such entry, if there are several) and
  is that of the base when there is no such entry; and the tally entries whose key is the key
  of no option change nothing: without them the call returns the same state.
\<close>

theorem minimal_results_keep_is_chosen:
  fixes G s poll_id ps pr poll
  defines "base \<equiv> (case ps of None \<Rightarrow> poll
                     | Some payload \<Rightarrow> fst (merge_poll_server G poll payload False))"
  assumes "polls s poll_id = Some poll"
    and "PollId_is_valid G poll_id" and "\<not> is_local_poll_id poll_id"
    and "case ps of None \<Rightarrow> True | Some payload \<Rightarrow> poll_server_id payload = poll_id"
    and "poll_results_flags pr AND MIN_MASK G \<noteq> 0"
  shows "\<exists>s' poll'.
           on_get_poll G s poll_id ps (Some pr) = Inr (s', Some poll_id)
           \<and> polls s' poll_id = Some poll'
           \<and> length (options poll') = length (options base)
           \<and> (\<forall>i < length (options base).
                 is_chosen (options poll' ! i) = is_chosen (options base ! i)
               \<and> voter_count (options poll' ! i)
                   = (case find (\<lambda>poll_result. poll_result_option poll_result = data (options base ! i))
                             (rev (poll_results_results pr)) of
                        None \<Rightarrow> voter_count (options base ! i)
                      | Some poll_result \<Rightarrow> poll_result_voters poll_result))
           \<and> on_get_poll G s poll_id ps
                 (Some (pr\<lparr>poll_results_results :=
                            filter (\<lambda>poll_result. poll_result_option poll_result
                                                   \<in> data ` set (options base))
                              (poll_results_results pr)\<rparr>))
               = Inr (s', Some poll_id)"
proof -
  define c1 where "c1 = (case ps of None \<Rightarrow> False
                         | Some payload \<Rightarrow> snd (merge_poll_server G poll payload False))"
  from on_get_poll_registered_stores [OF assms(2-5), of pr]
  obtain s' where run: "on_get_poll G s poll_id ps (Some pr) = Inr (s', Some poll_id)"
    and stored: "polls s' poll_id = Some (fst (merge_poll_results G base pr c1))"
    by (auto simp: base_def c1_def)
  have filtered: "on_get_poll G s poll_id ps
                 (Some (pr\<lparr>poll_results_results :=
                            filter (\<lambda>poll_result. poll_result_option poll_result
                                                   \<in> data ` set (options base))
                              (poll_results_results pr)\<rparr>))
               = on_get_poll G s poll_id ps (Some pr)"
    using merge_poll_results_filter [of G base pr c1]
    by (simp add: on_get_poll_registered [OF assms(2-5)] base_def c1_def)
  from merge_poll_results_minimal [OF assms(6), of base c1] run stored filtered
  show ?thesis by simp
qed

theorem minimal_results_keep_is_chosen_witness:
  "polls example_voted 7 = Some example_voted_poll
   \<and> PollId_is_valid example_Global 7 \<and> \<not> is_local_poll_id 7
   \<and> poll_results_flags example_min_results AND MIN_MASK example_Global \<noteq> 0
   \<and> (\<exists>s'. on_get_poll example_Global example_voted 7 None (Some example_min_results)
               = Inr (s', Some 7)
          \<and> map_option (map is_chosen \<circ> options) (polls s' 7) = Some [True, False]
          \<and> map_option (map voter_count \<circ> options) (polls s' 7) = Some [6, 0])"
  using minimal_results_keep_is_chosen
          [where G = example_Global and s = example_voted and poll_id = 7 and ps = None
             and pr = example_min_results and poll = example_voted_poll]
  by (simp add: example_min_results_def example_Global_def example_voted_def
        example_voted_poll_def PollManager_init_def is_local_poll_id_def
        on_get_poll_def get_poll_force_def merge_poll_results_def Let_def
        notify_on_poll_update_def save_poll_def sqlite_set_def)

subsection \<open>Generations along runs\<close>

text \<open>
  From a manager that has issued no generation, and as long as fewer than \<open>2 ^ 64\<close> queries
  have been sent, the counter is the number of queries sent, and no query and no pending
  answer carries a generation above it.
\<close>

lemma unat_next_generation:
  "unat (c :: 64 word) + 1 < 2 ^ 64 \<Longrightarrow> unat (c + 1) = unat c + 1"
  using unat_add_lem [of c 1] by simp

lemma le_next_generation:
  "unat (c :: 64 word) + 1 < 2 ^ 64 \<Longrightarrow> g \<le> c \<Longrightarrow> g \<le> c + 1"
  by (simp add: word_le_nat_alt unat_next_generation)

lemma less_next_generation:
  "unat (c :: 64 word) + 1 < 2 ^ 64 \<Longrightarrow> g \<le> c \<Longrightarrow> g < c + 1"
  by (simp add: word_le_nat_alt word_less_nat_alt unat_next_generation)

lemma generations_write_logevent:
  "write_logevent G s pa poll_id m opts l = Inr (s1, l1)
     \<Longrightarrow> sent_queries s1 = sent_queries s \<and> current_generation s1 = current_generation s
         \<and> pending_answers s1 = pending_answers s"
  by (auto simp: write_logevent_def binlog_add_def binlog_rewrite_def Let_def split: if_splits)

lemma generations_fold_set_value [simp]:
  "sent_queries (fold (\<lambda>p s'. set_value s' p) ps s) = sent_queries s"
  "current_generation (fold (\<lambda>p s'. set_value s' p) ps s) = current_generation s"
  by (simp_all add: fold_set_value)

lemma generations_supersede:
  "supersede s pa = Inr (s2, pa2)
     \<Longrightarrow> sent_queries s2 = sent_queries s \<and> current_generation s2 = current_generation s
         \<and> pending_answers s2 = pending_answers s"
  by (auto simp: supersede_def cancel_query_def split: if_splits option.splits)

lemma generations_send:
  "SetPollAnswerQuery_send G s poll_id m opts g q = (s5, q5)
     \<Longrightarrow> (\<exists>query. sent_queries s5 = sent_queries s @ [query] \<and> query_generation query = g)
         \<and> current_generation s5 = current_generation s
         \<and> pending_answers s5 = pending_answers s"
  by (auto simp: SetPollAnswerQuery_send_def split: if_splits)

lemma sent_queries_notify [simp]:
  "sent_queries (notify_on_poll_update s poll_id) = sent_queries s"
  "current_generation (notify_on_poll_update s poll_id) = current_generation s"
  by (simp_all add: notify_on_poll_update_def split: option.splits)

lemma do_set_poll_answer_generations:
  assumes "do_set_poll_answer G s poll_id m opts l promise = Inr s'"
  shows "(current_generation s' = current_generation s \<and> sent_queries s' = sent_queries s
          \<and> (\<exists>pa. pending_answers s poll_id = Some pa
                \<and> pending_answers s' = (pending_answers s)
                     (poll_id \<mapsto> pa\<lparr>pa_promises := pa_promises pa @ [promise]\<rparr>)))
         \<or> (current_generation s' = current_generation s + 1
             \<and> (\<exists>query. sent_queries s' = sent_queries s @ [query]
                   \<and> query_generation query = current_generation s + 1)
             \<and> (\<exists>pa'. pending_answers s' = (pending_answers s)(poll_id \<mapsto> pa')
                   \<and> pa_generation pa' = current_generation s + 1))"
proof (cases "pa_promises (case pending_answers s poll_id of None \<Rightarrow> PendingAnswer_default
                            | Some pa \<Rightarrow> pa) \<noteq> []
              \<and> pa_options (case pending_answers s poll_id of None \<Rightarrow> PendingAnswer_default
                            | Some pa \<Rightarrow> pa) = opts")
  case True
  with assms show ?thesis
    by (auto simp: do_set_poll_answer_def PendingAnswer_default_def split: option.splits)
next
  case False
  with assms show ?thesis
    by (auto simp: do_set_poll_answer_def Let_def
             dest!: generations_write_logevent generations_supersede generations_send
             split: if_splits sum.splits prod.splits)
qed

lemma generations_counted_same:
  assumes "generations_counted s"
    and "sent_queries s' = sent_queries s" and "current_generation s' = current_generation s"
    and "\<forall>poll_id pa'. pending_answers s' poll_id = Some pa'
           \<longrightarrow> (\<exists>pa. pending_answers s poll_id = Some pa \<and> pa_generation pa = pa_generation pa')"
  shows "generations_counted s'"
  using assms unfolding generations_counted_def by (metis (no_types, lifting))

lemma do_set_poll_answer_counted:
  assumes inv: "generations_counted s"
    and run: "do_set_poll_answer G s poll_id m opts l promise = Inr s'"
  shows "generations_counted s'"
  using do_set_poll_answer_generations [OF run]
proof (elim disjE conjE exE)
  fix pa
  assume "current_generation s' = current_generation s" "sent_queries s' = sent_queries s"
    "pending_answers s poll_id = Some pa"
    "pending_answers s' = (pending_answers s)
                     (poll_id \<mapsto> pa\<lparr>pa_promises := pa_promises pa @ [promise]\<rparr>)"
  with inv show ?thesis
    by (intro generations_counted_same [of s s']) (auto split: if_splits)
next
  fix query pa'
  assume gen: "current_generation s' = current_generation s + 1"
    and sent: "sent_queries s' = sent_queries s @ [query]"
    and query: "query_generation query = current_generation s + 1"
    and pending: "pending_answers s' = (pending_answers s)(poll_id \<mapsto> pa')"
    and pa': "pa_generation pa' = current_generation s + 1"
  show ?thesis
    unfolding generations_counted_def
  proof (intro impI)
    assume few: "length (sent_queries s') < 2 ^ 64"
    with sent have few_before: "length (sent_queries s) < 2 ^ 64"
      and next_fits: "length (sent_queries s) + 1 < 2 ^ 64"
      by simp_all
    from inv few_before have count: "unat (current_generation s) = length (sent_queries s)"
      and old_queries: "\<forall>q \<in> set (sent_queries s). query_generation q \<le> current_generation s"
      and old_answers: "\<forall>other pa. pending_answers s other = Some pa
                          \<longrightarrow> pa_generation pa \<le> current_generation s"
      by (simp_all add: generations_counted_def)
    from count next_fits have fits: "unat (current_generation s) + 1 < 2 ^ 64"
      by simp
    have "unat (current_generation s') = length (sent_queries s')"
      using gen sent count fits by (simp add: unat_next_generation)
    moreover have "\<forall>q \<in> set (sent_queries s'). query_generation q \<le> current_generation s'"
      using gen sent query old_queries fits by (auto simp: le_next_generation)
    moreover have "\<forall>other pa. pending_answers s' other = Some pa
                      \<longrightarrow> pa_generation pa \<le> current_generation s'"
      using gen pending pa' old_answers fits by (auto simp: le_next_generation split: if_splits)
    ultimately show "unat (current_generation s') = length (sent_queries s')
        \<and> (\<forall>query \<in> set (sent_queries s'). query_generation query \<le> current_generation s')
        \<and> (\<forall>poll_id pending_answer.
              pending_answers s' poll_id = Some pending_answer
                \<longrightarrow> pa_generation pending_answer \<le> current_generation s')"
      by blast
  qed
qed

lemma set_error_counted [simp]: "generations_counted (set_error s p e) = generations_counted s"
  by (simp add: generations_counted_def set_error_def)

lemma binlog_erase_counted [simp]: "generations_counted (binlog_erase s l) = generations_counted s"
  by (simp add: generations_counted_def binlog_erase_def)

lemma set_poll_answer_counted:
  assumes "generations_counted s"
    and "set_poll_answer G s poll_id m option_ids promise = Inr s'"
  shows "generations_counted s'"
  using assms
  by (auto simp: set_poll_answer_def dest: do_set_poll_answer_counted
           split: if_splits option.splits)

lemma on_set_poll_answer_counted:
  assumes "generations_counted s"
    and "on_set_poll_answer G s poll_id generation result = Inr s'"
  shows "generations_counted s'"
proof (cases "s' = s")
  case True
  with assms show ?thesis by simp
next
  case False
  with assms(2) have "sent_queries s' = sent_queries s"
    "current_generation s' = current_generation s"
    "pending_answers s' = (pending_answers s)(poll_id := None)"
    by (auto simp: on_set_poll_answer_def fold_set_result binlog_erase_def Let_def
             split: if_splits option.splits)
  with assms(1) show ?thesis
    by (intro generations_counted_same [of s s']) (auto split: if_splits)
qed

lemma on_binlog_event_counted:
  assumes "generations_counted s" and "on_binlog_event G s event = Inr s'"
  shows "generations_counted s'"
  using assms
  by (auto simp: on_binlog_event_def dest: do_set_poll_answer_counted
           split: HandlerType.splits if_splits option.splits)

lemma on_binlog_events_counted:
  "generations_counted s \<Longrightarrow> on_binlog_events G s events = Inr s' \<Longrightarrow> generations_counted s'"
proof (induction events arbitrary: s)
  case Nil
  then show ?case by simp
next
  case (Cons event events)
  then show ?case
    by (auto split: sum.splits dest: on_binlog_event_counted)
qed

lemma generations_save_poll:
  "save_poll G s poll poll_id = Inr s'
     \<Longrightarrow> sent_queries s' = sent_queries s \<and> current_generation s' = current_generation s
         \<and> pending_answers s' = pending_answers s"
  by (auto simp: save_poll_def sqlite_set_def split: if_splits)

lemma generations_get_poll_force:
  "get_poll_force G s poll_id = Inr (s', found)
     \<Longrightarrow> sent_queries s' = sent_queries s \<and> current_generation s' = current_generation s
         \<and> pending_answers s' = pending_answers s"
  by (auto simp: get_poll_force_def on_load_poll_from_database_def Let_def
           split: option.splits if_splits sum.splits)

lemma generations_on_get_poll:
  "on_get_poll G s poll_id ps pr = Inr (s', r)
     \<Longrightarrow> sent_queries s' = sent_queries s \<and> current_generation s' = current_generation s
         \<and> pending_answers s' = pending_answers s"
  by (auto simp: on_get_poll_def Let_def
           dest!: generations_get_poll_force generations_save_poll
           split: option.splits if_splits sum.splits prod.splits)

lemma generations_close_poll:
  "close_poll G s poll_id = Inr s'
     \<Longrightarrow> sent_queries s' = sent_queries s \<and> current_generation s' = current_generation s
         \<and> pending_answers s' = pending_answers s"
  by (auto simp: close_poll_def Let_def dest!: generations_save_poll
           split: option.splits if_splits)

lemma generations_create_poll:
  "create_poll s q ts = Inr (s', r)
     \<Longrightarrow> sent_queries s' = sent_queries s \<and> current_generation s' = current_generation s
         \<and> pending_answers s' = pending_answers s"
  by (auto simp: create_poll_def Let_def split: if_splits)

lemma generations_register_poll:
  "register_poll s poll_id m = Inr s'
     \<Longrightarrow> sent_queries s' = sent_queries s \<and> current_generation s' = current_generation s
         \<and> pending_answers s' = pending_answers s"
  by (auto simp: register_poll_def split: if_splits)

lemma generations_unregister_poll:
  "unregister_poll s poll_id m = Inr s'
     \<Longrightarrow> sent_queries s' = sent_queries s \<and> current_generation s' = current_generation s
         \<and> pending_answers s' = pending_answers s"
  by (auto simp: unregister_poll_def split: if_splits)

lemma generations_counted_frame:
  "generations_counted s \<Longrightarrow>
     sent_queries s' = sent_queries s \<and> current_generation s' = current_generation s
       \<and> pending_answers s' = pending_answers s
     \<Longrightarrow> generations_counted s'"
  by (simp add: generations_counted_def)

lemma step_counted:
  assumes "generations_counted s" and "step G s operation = Inr s'"
  shows "generations_counted s'"
proof (cases operation)
  case (Op_create_poll q ts)
  with assms show ?thesis
    by (cases "create_poll s q ts")
       (auto dest!: generations_create_poll intro: generations_counted_frame)
next
  case (Op_register_poll poll_id m)
  with assms show ?thesis
    by (auto dest!: generations_register_poll intro: generations_counted_frame)
next
  case (Op_unregister_poll poll_id m)
  with assms show ?thesis
    by (auto dest!: generations_unregister_poll intro: generations_counted_frame)
next
  case (Op_set_poll_answer poll_id m option_ids promise)
  with assms show ?thesis
    by (auto dest: set_poll_answer_counted)
next
  case (Op_on_set_poll_answer poll_id generation result)
  with assms show ?thesis
    by (auto dest: on_set_poll_answer_counted)
next
  case (Op_close_poll poll_id)
  with assms show ?thesis
    by (auto dest!: generations_close_poll intro: generations_counted_frame)
next
  case (Op_on_get_poll poll_id ps pr)
  with assms show ?thesis
    by (cases "on_get_poll G s poll_id ps pr")
       (auto dest!: generations_on_get_poll intro: generations_counted_frame)
next
  case (Op_on_binlog_events events)
  with assms show ?thesis
    by (auto dest: on_binlog_events_counted)
qed

lemma run_counted:
  "generations_counted s \<Longrightarrow> run s operations = Inr s' \<Longrightarrow> generations_counted s'"
proof (induction operations arbitrary: s)
  case Nil
  then show ?case by simp
next
  case (Cons a operations)
  obtain G operation where a: "a = (G, operation)" by (cases a)
  with Cons show ?case
    by (auto split: sum.splits dest: step_counted)
qed

lemma generations_counted_start:
  "current_generation s = 0 \<Longrightarrow> sent_queries s = [] \<Longrightarrow> pending_answers s = Map.empty
     \<Longrightarrow> generations_counted s"
  by (simp add: generations_counted_def)

text \<open>
  Claim C1, as amended. Let the state be reached by a run of operations from a manager that has
  issued no generation yet (counter 0, no query sent, no pending answer), with fewer than
  \<open>2 ^ 64 - 1\<close> queries sent so far. Let the poll have a pending answer with promises and a query
  reference, and let \<^verbatim>\<open>do_set_poll_answer\<close> be called with other options, its assertions on the
  log event ids being true. Then the call cancels the old query, sets every old promise to a
  value (never to an error), installs a pending answer with the new options, the new promise
  alone and a generation greater than the generation of every query sent before and of every
  pending answer there was, the replaced one among them, and sends exactly one new query,
  tagged with that generation; and when the result of that query arrives, the handler sets it
  on the new promise and removes the pending answer, unless the process is closing and the
  result is an error (then the handler returns at once).
\<close>

theorem do_set_poll_answer_supersedes:
  assumes "current_generation s0 = 0" and "sent_queries s0 = []"
    and "pending_answers s0 = Map.empty"
    and "run s0 operations = Inr s"
    and "length (sent_queries s) < 2 ^ 64 - 1"
    and "pending_answers s poll_id = Some pending_answer"
    and "pa_promises pending_answer \<noteq> []"
    and "pa_options pending_answer \<noteq> opts"
    and "pa_query_ref pending_answer = Some q"
    and "logevent_id = 0 \<or> pa_logevent_id pending_answer = 0"
    and "logevent_id = 0 \<and> use_message_db G
           \<longrightarrow> (pa_generation pending_answer = 0 \<longleftrightarrow> pa_logevent_id pending_answer = 0)"
  shows "\<exists>s' pa' query.
           do_set_poll_answer G s poll_id m opts logevent_id promise = Inr s'
           \<and> cancelled_queries s' = cancelled_queries s @ [q]
           \<and> promise_results s'
               = promise_results s @ map (\<lambda>p. (p, Ok)) (pa_promises pending_answer)
           \<and> pending_answers s' poll_id = Some pa'
           \<and> pa_options pa' = opts \<and> pa_promises pa' = [promise]
           \<and> (\<forall>old \<in> set (sent_queries s). query_generation old < pa_generation pa')
           \<and> (\<forall>other old. pending_answers s other = Some old
                  \<longrightarrow> pa_generation old < pa_generation pa')
           \<and> sent_queries s' = sent_queries s @ [query]
           \<and> query_poll_id query = poll_id \<and> query_generation query = pa_generation pa'
           \<and> query_full_message_id query = m \<and> query_options query = opts
           \<and> (\<forall>result. \<not> (close_flag G \<and> is_error result) \<longrightarrow>
                  (\<exists>s''. on_set_poll_answer G s' poll_id (query_generation query) result = Inr s''
                     \<and> promise_results s'' = promise_results s' @ [(promise, result)]
                     \<and> pending_answers s'' poll_id = None))"
proof -
  from assms(1-3) have "generations_counted s0"
    by (rule generations_counted_start)
  then have "generations_counted s"
    using assms(4) by (rule run_counted)
  with assms(5) have count: "unat (current_generation s) = length (sent_queries s)"
    and old_queries: "\<forall>old \<in> set (sent_queries s). query_generation old \<le> current_generation s"
    and old_answers: "\<forall>other old. pending_answers s other = Some old
                        \<longrightarrow> pa_generation old \<le> current_generation s"
    by (simp_all add: generations_counted_def)
  from count assms(5) have fits: "unat (current_generation s) + 1 < 2 ^ 64"
    by simp
  from supersession_state [OF assms(6-11), of m promise]
  obtain s' pa' query where
    run: "do_set_poll_answer G s poll_id m opts logevent_id promise = Inr s'"
    and cancelled: "cancelled_queries s' = cancelled_queries s @ [q]"
    and resolved: "promise_results s'
               = promise_results s @ map (\<lambda>p. (p, Ok)) (pa_promises pending_answer)"
    and pending: "pending_answers s' = (pending_answers s)(poll_id \<mapsto> pa')"
    and pa': "pa_options pa' = opts" "pa_promises pa' = [promise]"
             "pa_generation pa' = current_generation s + 1"
    and sent: "sent_queries s' = sent_queries s @ [query]"
    and query: "query_poll_id query = poll_id" "query_generation query = current_generation s + 1"
               "query_full_message_id query = m" "query_options query = opts"
    by blast
  from old_queries fits pa'(3)
  have greater: "\<forall>old \<in> set (sent_queries s). query_generation old < pa_generation pa'"
    by (simp add: less_next_generation)
  from old_answers fits pa'(3)
  have greater': "\<forall>other old. pending_answers s other = Some old
                  \<longrightarrow> pa_generation old < pa_generation pa'"
    by (simp add: less_next_generation)
  have completion: "\<exists>s''. on_set_poll_answer G s' poll_id (query_generation query) result = Inr s''
                     \<and> promise_results s'' = promise_results s' @ [(promise, result)]
                     \<and> pending_answers s'' poll_id = None"
    if "\<not> (close_flag G \<and> is_error result)" for result
    using completion_of_current_generation
            [of s' poll_id pa' "query_generation query" G result]
      that pending pa' query
    by auto
  from run cancelled resolved pending pa' greater greater' sent query completion show ?thesis
    by (intro exI [of _ s'] exI [of _ pa'] exI [of _ query]) simp
qed

theorem do_set_poll_answer_supersedes_witness:
  "current_generation example_confirmed = 0 \<and> sent_queries example_confirmed = []
   \<and> run example_confirmed
         [(example_Global, Op_set_poll_answer 7 (FullMessageId 3 4) [0] (Promise 1))]
       = Inr example_voting
   \<and> length (sent_queries example_voting) = 1
   \<and> pending_answers example_voting 7
       = Some \<lparr>pa_options = [''0''], pa_promises = [Promise 1], pa_generation = 1,
               pa_logevent_id = 1, pa_query_ref = Some 0\<rparr>
   \<and> do_set_poll_answer example_Global example_voting 7 (FullMessageId 3 4) [''1''] 0 (Promise 2)
       = Inr example_revoting
   \<and> (\<exists>s''. on_set_poll_answer example_Global example_revoting 7 2 (Error 500 ''Failed'') = Inr s''
         \<and> promise_results s'' = [(Promise 1, Ok), (Promise 2, Error 500 ''Failed'')]
         \<and> pending_answers s'' 7 = None)"
proof -
  have start: "current_generation example_confirmed = 0" "sent_queries example_confirmed = []"
    "pending_answers example_confirmed = Map.empty"
    by (simp_all add: example_confirmed_def PollManager_init_def)
  have reached: "run example_confirmed
         [(example_Global, Op_set_poll_answer 7 (FullMessageId 3 4) [0] (Promise 1))]
       = Inr example_voting"
    using example_voting_reached by simp
  have few: "length (sent_queries example_voting) < 2 ^ 64 - 1"
    and one: "length (sent_queries example_voting) = 1"
    and pending0: "pending_answers example_voting 7
       = Some \<lparr>pa_options = [''0''], pa_promises = [Promise 1], pa_generation = 1,
               pa_logevent_id = 1, pa_query_ref = Some 0\<rparr>"
    by (simp_all add: example_voting_def)
  have run: "do_set_poll_answer example_Global example_voting 7 (FullMessageId 3 4) [''1''] 0
               (Promise 2) = Inr example_revoting"
    by (simp add: example_confirmed_def example_confirmed_poll_def PollManager_init_def
        example_Global_def example_voting_def example_revoting_def do_set_poll_answer_def
        write_logevent_def binlog_rewrite_def supersede_def cancel_query_def set_value_def
        notify_on_poll_update_def SetPollAnswerQuery_send_def Let_def)
  from do_set_poll_answer_supersedes
         [OF start reached few pending0, where opts = "[''1'']" and q = 0 and logevent_id = 0
            and G = example_Global and m = "FullMessageId 3 4" and promise = "Promise 2"]
  have "\<exists>s' pa' query.
           do_set_poll_answer example_Global example_voting 7 (FullMessageId 3 4) [''1''] 0
             (Promise 2) = Inr s'
           \<and> sent_queries s' = sent_queries example_voting @ [query]
           \<and> query_generation query = pa_generation pa'
           \<and> pending_answers s' 7 = Some pa'
           \<and> (\<forall>result. \<not> (close_flag example_Global \<and> is_error result) \<longrightarrow>
                  (\<exists>s''. on_set_poll_answer example_Global s' 7 (query_generation query) result
                            = Inr s''
                     \<and> promise_results s'' = promise_results s' @ [(Promise 2, result)]
                     \<and> pending_answers s'' 7 = None))"
    by simp blast
  then obtain pa' query where
    sent: "sent_queries example_revoting = sent_queries example_voting @ [query]"
    and gen: "query_generation query = pa_generation pa'"
    and pending: "pending_answers example_revoting 7 = Some pa'"
    and completion: "\<forall>result. \<not> (close_flag example_Global \<and> is_error result) \<longrightarrow>
                  (\<exists>s''. on_set_poll_answer example_Global example_revoting 7
                            (query_generation query) result = Inr s''
                     \<and> promise_results s''
                         = promise_results example_revoting @ [(Promise 2, result)]
                     \<and> pending_answers s'' 7 = None)"
    using run by auto
  from pending gen have "query_generation query = 2"
    by (auto simp: example_revoting_def)
  with completion [rule_format, of "Error 500 ''Failed''"]
  have "\<exists>s''. on_set_poll_answer example_Global example_revoting 7 2 (Error 500 ''Failed'')
                 = Inr s''
         \<and> promise_results s'' = [(Promise 1, Ok), (Promise 2, Error 500 ''Failed'')]
         \<and> pending_answers s'' 7 = None"
    by (simp add: example_Global_def example_revoting_def)
  with run reached start one pending0 show ?thesis
    by simp
qed

text \<open>
  The claim as stated fails while the process is closing: the error result of the new query is
  dropped by the handler, and promise 2 of the new vote is never set.
\<close>

theorem do_set_poll_answer_supersedes_counterexample:
  "do_set_poll_answer example_closing_Global example_voting 7 (FullMessageId 3 4) [''1''] 0
     (Promise 2) = Inr example_revoting
   \<and> pending_answers example_revoting 7
       = Some \<lparr>pa_options = [''1''], pa_promises = [Promise 2], pa_generation = 2,
               pa_logevent_id = 1, pa_query_ref = Some 1\<rparr>
   \<and> on_set_poll_answer example_closing_Global example_revoting 7 2 (Error 500 ''Failed'')
       = Inr example_revoting
   \<and> promise_results example_revoting = [(Promise 1, Ok)]"
  by (simp add: example_confirmed_def example_confirmed_poll_def PollManager_init_def
        example_Global_def example_closing_Global_def example_voting_def example_revoting_def
        do_set_poll_answer_def on_set_poll_answer_def
        write_logevent_def binlog_rewrite_def supersede_def cancel_query_def set_value_def
        notify_on_poll_update_def SetPollAnswerQuery_send_def Let_def)

end
